theory Spec2Isabelle
  imports Complex_Main "HOL-Library.Word"
begin

section \<open>The host platform: numbers, byte buffers, thrown errors\<close>

text \<open>
  A JavaScript \<^verbatim>\<open>number\<close> is a finite value, \<^verbatim>\<open>NaN\<close> or one of the two
  infinities. The finite values are taken from the rationals, which hold every double,
  fractions included; \<^verbatim>\<open>-0\<close> and \<^verbatim>\<open>0\<close> are one value. A \<^verbatim>\<open>bigint\<close> is an
  integer. The comparison \<^verbatim>\<open>a < b\<close> is false whenever an operand is \<^verbatim>\<open>NaN\<close>
  (\<^verbatim>\<open>a > b\<close> is \<open>js_less b a\<close>), and \<^verbatim>\<open>===\<close> is false on \<^verbatim>\<open>NaN\<close>.
\<close>

datatype number = Finite rat | NaN | Infinity | NegInfinity

fun js_less :: "number \<Rightarrow> number \<Rightarrow> bool" where
  "js_less (Finite a) (Finite b) = (a < b)"
| "js_less (Finite a) Infinity = True"
| "js_less NegInfinity (Finite b) = True"
| "js_less NegInfinity Infinity = True"
| "js_less _ _ = False"

definition js_strict_equals :: "number \<Rightarrow> number \<Rightarrow> bool" where
  "js_strict_equals a b = (a \<noteq> NaN \<and> a = b)"

text \<open>
  Storing a number into a byte of a buffer drops its fraction towards zero first;
  \<^verbatim>\<open>NaN\<close> and the infinities are stored as 0.
\<close>

fun truncate_number :: "number \<Rightarrow> int" where
  "truncate_number (Finite q) = (if 0 \<le> q then \<lfloor>q\<rfloor> else \<lceil>q\<rceil>)"
| "truncate_number _ = 0"

text \<open>
  A Node.js \<^verbatim>\<open>Buffer\<close> is a fixed-length array of bytes. The cursor
  \<^verbatim>\<open>{ offset: number }\<close> is a byte offset; Node's accessors reject a negative
  or fractional offset before touching the buffer, so the cursor is a natural number here.
  Every \<^verbatim>\<open>throw\<close> is the \<open>Inl\<close> branch of a sum.
\<close>

type_synonym byte = "8 word"
type_synonym Buffer = "byte list"

text \<open>
  The message of an \<^verbatim>\<open>Error\<close> is kept as the template literal that builds it: the
  literal text and the interpolated values, in order.
\<close>

datatype part = Text string | Num number | Big int

datatype error =
    Error "part list"             \<comment> \<open>\<^verbatim>\<open>throw new Error(`...`)\<close> of the constructors\<close>
  | ERR_OUT_OF_RANGE              \<comment> \<open>Node: value or offset out of range\<close>
  | ERR_BUFFER_OUT_OF_BOUNDS      \<comment> \<open>Node: buffer shorter than the accessed width\<close>
  | Invalid_public_key_input      \<comment> \<open>web3.js: more than 32 bytes given to PublicKey\<close>

definition Buffer_alloc :: "nat \<Rightarrow> Buffer" where
  "Buffer_alloc n = replicate n 0"

text \<open>Little-endian bytes of an integer (two's complement for a negative one) and back.\<close>

fun le_bytes :: "nat \<Rightarrow> int \<Rightarrow> byte list" where
  "le_bytes 0 v = []"
| "le_bytes (Suc n) v = word_of_int v # le_bytes n (v div 256)"

fun le_value :: "byte list \<Rightarrow> int" where
  "le_value [] = 0"
| "le_value (b # bs) = uint b + 256 * le_value bs"

definition to_signed :: "nat \<Rightarrow> int \<Rightarrow> int" where
  "to_signed w x = (if 2 ^ (8 * w - 1) \<le> x then x - 2 ^ (8 * w) else x)"

text \<open>
  Node's \<^verbatim>\<open>buf.write[U]Int<8w>[LE](value, offset)\<close> and
  \<^verbatim>\<open>buf.writeBig[U]Int64LE(value, offset)\<close>: the value is checked against the range of
  the width first (\<^verbatim>\<open>value > max || value < min\<close>), then the offset against the
  buffer; only then are the \<open>w\<close> bytes stored. The source ignores the returned offset,
  so the model returns the buffer.
\<close>

definition bounds_error :: "nat \<Rightarrow> Buffer \<Rightarrow> error" where
  "bounds_error w buffer =
     (if length buffer < w then ERR_BUFFER_OUT_OF_BOUNDS else ERR_OUT_OF_RANGE)"

definition store_bytes :: "nat \<Rightarrow> Buffer \<Rightarrow> int \<Rightarrow> nat \<Rightarrow> error + Buffer" where
  "store_bytes w buffer n offset =
     (if length buffer < offset + w then Inl (bounds_error w buffer)
      else Inr (take offset buffer @ le_bytes w n @ drop (offset + w) buffer))"

definition write_number ::
  "nat \<Rightarrow> number \<Rightarrow> number \<Rightarrow> Buffer \<Rightarrow> number \<Rightarrow> nat \<Rightarrow> error + Buffer" where
  "write_number w lo hi buffer v offset =
     (if js_less hi v \<or> js_less v lo then Inl ERR_OUT_OF_RANGE
      else store_bytes w buffer (truncate_number v) offset)"

definition write_bigint :: "nat \<Rightarrow> int \<Rightarrow> int \<Rightarrow> Buffer \<Rightarrow> int \<Rightarrow> nat \<Rightarrow> error + Buffer" where
  "write_bigint w lo hi buffer v offset =
     (if hi < v \<or> v < lo then Inl ERR_OUT_OF_RANGE
      else store_bytes w buffer v offset)"

definition buffer_read :: "nat \<Rightarrow> Buffer \<Rightarrow> nat \<Rightarrow> error + int" where
  "buffer_read w buffer offset =
     (if length buffer < offset + w then Inl (bounds_error w buffer)
      else Inr (le_value (take w (drop offset buffer))))"

definition buffer_read_signed :: "nat \<Rightarrow> Buffer \<Rightarrow> nat \<Rightarrow> error + int" where
  "buffer_read_signed w buffer offset =
     (case buffer_read w buffer offset of
        Inl e \<Rightarrow> Inl e
      | Inr x \<Rightarrow> Inr (to_signed w x))"

text \<open>The reads of up to 32 bits return the integer as a \<^verbatim>\<open>number\<close>.\<close>

definition as_number :: "error + int \<Rightarrow> error + number" where
  "as_number r = (case r of Inl e \<Rightarrow> Inl e | Inr x \<Rightarrow> Inr (Finite (of_int x)))"

definition writeInt8 :: "Buffer \<Rightarrow> number \<Rightarrow> nat \<Rightarrow> error + Buffer" where
  "writeInt8 = write_number 1 (Finite (- 128)) (Finite 127)"
definition writeInt16LE :: "Buffer \<Rightarrow> number \<Rightarrow> nat \<Rightarrow> error + Buffer" where
  "writeInt16LE = write_number 2 (Finite (- 32768)) (Finite 32767)"
definition writeInt32LE :: "Buffer \<Rightarrow> number \<Rightarrow> nat \<Rightarrow> error + Buffer" where
  "writeInt32LE = write_number 4 (Finite (- 2147483648)) (Finite 2147483647)"
definition writeBigInt64LE :: "Buffer \<Rightarrow> int \<Rightarrow> nat \<Rightarrow> error + Buffer" where
  "writeBigInt64LE = write_bigint 8 (- 9223372036854775808) 9223372036854775807"
definition writeUInt8 :: "Buffer \<Rightarrow> number \<Rightarrow> nat \<Rightarrow> error + Buffer" where
  "writeUInt8 = write_number 1 (Finite 0) (Finite 255)"
definition writeUInt16LE :: "Buffer \<Rightarrow> number \<Rightarrow> nat \<Rightarrow> error + Buffer" where
  "writeUInt16LE = write_number 2 (Finite 0) (Finite 65535)"
definition writeUint32LE :: "Buffer \<Rightarrow> number \<Rightarrow> nat \<Rightarrow> error + Buffer" where
  "writeUint32LE = write_number 4 (Finite 0) (Finite 4294967295)"
definition writeBigUint64LE :: "Buffer \<Rightarrow> int \<Rightarrow> nat \<Rightarrow> error + Buffer" where
  "writeBigUint64LE = write_bigint 8 0 18446744073709551615"

definition readInt8 :: "Buffer \<Rightarrow> nat \<Rightarrow> error + number" where
  "readInt8 buffer offset = as_number (buffer_read_signed 1 buffer offset)"
definition readInt16LE :: "Buffer \<Rightarrow> nat \<Rightarrow> error + number" where
  "readInt16LE buffer offset = as_number (buffer_read_signed 2 buffer offset)"
definition readInt32LE :: "Buffer \<Rightarrow> nat \<Rightarrow> error + number" where
  "readInt32LE buffer offset = as_number (buffer_read_signed 4 buffer offset)"
definition readBigInt64LE :: "Buffer \<Rightarrow> nat \<Rightarrow> error + int" where
  "readBigInt64LE = buffer_read_signed 8"
definition readUInt8 :: "Buffer \<Rightarrow> nat \<Rightarrow> error + number" where
  "readUInt8 buffer offset = as_number (buffer_read 1 buffer offset)"
definition readUInt16LE :: "Buffer \<Rightarrow> nat \<Rightarrow> error + number" where
  "readUInt16LE buffer offset = as_number (buffer_read 2 buffer offset)"
definition readUint32LE :: "Buffer \<Rightarrow> nat \<Rightarrow> error + number" where
  "readUint32LE buffer offset = as_number (buffer_read 4 buffer offset)"
definition readBigUInt64LE :: "Buffer \<Rightarrow> nat \<Rightarrow> error + int" where
  "readBigUInt64LE = buffer_read 8"

text \<open>
  \<^verbatim>\<open>buffer.slice(start, end)\<close> clamps both ends to the buffer;
  \<^verbatim>\<open>source.copy(target, targetStart)\<close> copies as many bytes as fit into the
  target from \<open>targetStart\<close> on, and none when \<open>targetStart\<close> is past its end.
\<close>

definition Buffer_slice :: "Buffer \<Rightarrow> nat \<Rightarrow> nat \<Rightarrow> Buffer" where
  "Buffer_slice buffer start end = take (end - start) (drop start buffer)"

definition Buffer_copy :: "Buffer \<Rightarrow> Buffer \<Rightarrow> nat \<Rightarrow> Buffer" where
  "Buffer_copy source target targetStart =
     (let n = min (length source) (length target - targetStart)
      in take targetStart target @ take n source @ drop (targetStart + n) target)"

text \<open>
  What a template literal makes of an interpolated value. A \<^verbatim>\<open>bigint\<close> is rendered
  with all its decimal digits. A \<^verbatim>\<open>number\<close> is rendered with all its decimal
  digits when it is a safe integer (at most \<open>2^53 - 1\<close> in absolute value); the
  infinities and \<^verbatim>\<open>NaN\<close> have their names. For every other number JavaScript prints
  the shortest digits that read back as the same double, in exponent form from
  \<open>10^21\<close> on: these renderings are not modelled, and the result is \<open>None\<close>.
\<close>

definition digit_char :: "int \<Rightarrow> char" where
  "digit_char d = ''0123456789'' ! nat d"

function show_digits :: "int \<Rightarrow> string" where
  "show_digits n =
     (if n < 10 then [digit_char n] else show_digits (n div 10) @ [digit_char (n mod 10)])"
  by pat_completeness auto
termination
  by (relation "measure nat") auto

declare show_digits.simps [simp del]

definition show_int :: "int \<Rightarrow> string" where
  "show_int i = (if i < 0 then CHR ''-'' # show_digits (- i) else show_digits i)"

definition is_safe_integer :: "rat \<Rightarrow> bool" where
  "is_safe_integer q = (of_int \<lfloor>q\<rfloor> = q \<and> \<bar>q\<bar> \<le> 9007199254740991)"

fun Number_toString :: "number \<Rightarrow> string option" where
  "Number_toString (Finite q) = (if is_safe_integer q then Some (show_int \<lfloor>q\<rfloor>) else None)"
| "Number_toString NaN = Some ''NaN''"
| "Number_toString Infinity = Some ''Infinity''"
| "Number_toString NegInfinity = Some ''-Infinity''"

fun part_toString :: "part \<Rightarrow> string option" where
  "part_toString (Text s) = Some s"
| "part_toString (Num v) = Number_toString v"
| "part_toString (Big n) = Some (show_int n)"

fun template_toString :: "part list \<Rightarrow> string option" where
  "template_toString [] = Some []"
| "template_toString (p # ps) =
     (case part_toString p of
        None \<Rightarrow> None
      | Some s \<Rightarrow> (case template_toString ps of None \<Rightarrow> None | Some r \<Rightarrow> Some (s @ r)))"

text \<open>
  The template \<^verbatim>\<open>`${value} is not in range ${min}..${max}`\<close> of the constructors.
\<close>

definition range_message :: "part \<Rightarrow> part \<Rightarrow> part \<Rightarrow> part list" where
  "range_message v lo hi = [v, Text '' is not in range '', lo, Text ''..'', hi]"

section \<open>The bounded numeric classes of \<^verbatim>\<open>ts_helpers/src/num.ts\<close>\<close>

text \<open>
  Each class holds its raw value in the public field \<open>value\<close>: a \<^verbatim>\<open>number\<close> for
  the classes of up to 32 bits, a \<^verbatim>\<open>bigint\<close> for \<open>i64\<close> and \<open>u64\<close>. The
  constructor is the only place that checks the bounds; \<open>write\<close> and \<open>read\<close> take the
  buffer and the cursor and return the buffer and the cursor as the call leaves them. The
  amount added to the cursor and the result of \<open>staticSize\<close> are the literals of the
  source. \<open>equals\<close> takes either another instance (\<open>Inl\<close>) or a raw value
  (\<open>Inr\<close>) and compares with \<^verbatim>\<open>===\<close>.
\<close>

subsection \<open>Class \<^verbatim>\<open>i8\<close>\<close>

datatype i8 = I8 (i8_value: number)

definition i8_bounds_min :: number where
  "i8_bounds_min = Finite (- 128)"

definition i8_bounds_max :: number where
  "i8_bounds_max = Finite 127"

definition i8_new :: "number \<Rightarrow> error + i8" where
  "i8_new v =
     (if js_less v i8_bounds_min \<or> js_less i8_bounds_max v
      then Inl (Error (range_message (Num v) (Num i8_bounds_min) (Num i8_bounds_max)))
      else Inr (I8 v))"

definition i8_write :: "i8 \<Rightarrow> Buffer \<Rightarrow> nat \<Rightarrow> error + Buffer \<times> nat" where
  "i8_write this buffer offset =
     (case writeInt8 buffer (i8_value this) offset of
        Inl e \<Rightarrow> Inl e
      | Inr buffer' \<Rightarrow> Inr (buffer', offset + 1))"

definition i8_staticSize :: nat where
  "i8_staticSize = 1"

definition i8_serializedSize :: "i8 \<Rightarrow> nat" where
  "i8_serializedSize this = i8_staticSize"

definition i8_read :: "Buffer \<Rightarrow> nat \<Rightarrow> error + i8 \<times> nat" where
  "i8_read buffer offset =
     (case readInt8 buffer offset of
        Inl e \<Rightarrow> Inl e
      | Inr v \<Rightarrow>
          (case i8_new v of
             Inl e \<Rightarrow> Inl e
           | Inr x \<Rightarrow> Inr (x, offset + 1)))"

definition i8_equals :: "i8 \<Rightarrow> i8 + number \<Rightarrow> bool" where
  "i8_equals this other =
     (case other of
        Inl x \<Rightarrow> js_strict_equals (i8_value this) (i8_value x)
      | Inr v \<Rightarrow> js_strict_equals (i8_value this) v)"

subsection \<open>Class \<^verbatim>\<open>i16\<close>\<close>

datatype i16 = I16 (i16_value: number)

definition i16_bounds_min :: number where
  "i16_bounds_min = Finite (- 32768)"

definition i16_bounds_max :: number where
  "i16_bounds_max = Finite 32767"

definition i16_new :: "number \<Rightarrow> error + i16" where
  "i16_new v =
     (if js_less v i16_bounds_min \<or> js_less i16_bounds_max v
      then Inl (Error (range_message (Num v) (Num i16_bounds_min) (Num i16_bounds_max)))
      else Inr (I16 v))"

definition i16_write :: "i16 \<Rightarrow> Buffer \<Rightarrow> nat \<Rightarrow> error + Buffer \<times> nat" where
  "i16_write this buffer offset =
     (case writeInt16LE buffer (i16_value this) offset of
        Inl e \<Rightarrow> Inl e
      | Inr buffer' \<Rightarrow> Inr (buffer', offset + 2))"

definition i16_staticSize :: nat where
  "i16_staticSize = 2"

definition i16_serializedSize :: "i16 \<Rightarrow> nat" where
  "i16_serializedSize this = i16_staticSize"

definition i16_read :: "Buffer \<Rightarrow> nat \<Rightarrow> error + i16 \<times> nat" where
  "i16_read buffer offset =
     (case readInt16LE buffer offset of
        Inl e \<Rightarrow> Inl e
      | Inr v \<Rightarrow>
          (case i16_new v of
             Inl e \<Rightarrow> Inl e
           | Inr x \<Rightarrow> Inr (x, offset + 2)))"

definition i16_equals :: "i16 \<Rightarrow> i16 + number \<Rightarrow> bool" where
  "i16_equals this other =
     (case other of
        Inl x \<Rightarrow> js_strict_equals (i16_value this) (i16_value x)
      | Inr v \<Rightarrow> js_strict_equals (i16_value this) v)"

subsection \<open>Class \<^verbatim>\<open>i32\<close>\<close>

datatype i32 = I32 (i32_value: number)

definition i32_bounds_min :: number where
  "i32_bounds_min = Finite (- 2147483648)"

definition i32_bounds_max :: number where
  "i32_bounds_max = Finite 2147483647"

definition i32_new :: "number \<Rightarrow> error + i32" where
  "i32_new v =
     (if js_less v i32_bounds_min \<or> js_less i32_bounds_max v
      then Inl (Error (range_message (Num v) (Num i32_bounds_min) (Num i32_bounds_max)))
      else Inr (I32 v))"

definition i32_write :: "i32 \<Rightarrow> Buffer \<Rightarrow> nat \<Rightarrow> error + Buffer \<times> nat" where
  "i32_write this buffer offset =
     (case writeInt32LE buffer (i32_value this) offset of
        Inl e \<Rightarrow> Inl e
      | Inr buffer' \<Rightarrow> Inr (buffer', offset + 4))"

definition i32_staticSize :: nat where
  "i32_staticSize = 4"

definition i32_serializedSize :: "i32 \<Rightarrow> nat" where
  "i32_serializedSize this = i32_staticSize"

definition i32_read :: "Buffer \<Rightarrow> nat \<Rightarrow> error + i32 \<times> nat" where
  "i32_read buffer offset =
     (case readInt32LE buffer offset of
        Inl e \<Rightarrow> Inl e
      | Inr v \<Rightarrow>
          (case i32_new v of
             Inl e \<Rightarrow> Inl e
           | Inr x \<Rightarrow> Inr (x, offset + 4)))"

definition i32_equals :: "i32 \<Rightarrow> i32 + number \<Rightarrow> bool" where
  "i32_equals this other =
     (case other of
        Inl x \<Rightarrow> js_strict_equals (i32_value this) (i32_value x)
      | Inr v \<Rightarrow> js_strict_equals (i32_value this) v)"

subsection \<open>Class \<^verbatim>\<open>i64\<close>\<close>

datatype i64 = I64 (i64_value: int)

definition i64_bounds_min :: int where
  "i64_bounds_min = - 9223372036854775808"

definition i64_bounds_max :: int where
  "i64_bounds_max = 9223372036854775807"

definition i64_new :: "int \<Rightarrow> error + i64" where
  "i64_new v =
     (if v < i64_bounds_min \<or> v > i64_bounds_max
      then Inl (Error (range_message (Big v) (Big i64_bounds_min) (Big i64_bounds_max)))
      else Inr (I64 v))"

definition i64_write :: "i64 \<Rightarrow> Buffer \<Rightarrow> nat \<Rightarrow> error + Buffer \<times> nat" where
  "i64_write this buffer offset =
     (case writeBigInt64LE buffer (i64_value this) offset of
        Inl e \<Rightarrow> Inl e
      | Inr buffer' \<Rightarrow> Inr (buffer', offset + 8))"

definition i64_staticSize :: nat where
  "i64_staticSize = 8"

definition i64_serializedSize :: "i64 \<Rightarrow> nat" where
  "i64_serializedSize this = i64_staticSize"

definition i64_read :: "Buffer \<Rightarrow> nat \<Rightarrow> error + i64 \<times> nat" where
  "i64_read buffer offset =
     (case readBigInt64LE buffer offset of
        Inl e \<Rightarrow> Inl e
      | Inr v \<Rightarrow>
          (case i64_new v of
             Inl e \<Rightarrow> Inl e
           | Inr x \<Rightarrow> Inr (x, offset + 8)))"

definition i64_equals :: "i64 \<Rightarrow> i64 + int \<Rightarrow> bool" where
  "i64_equals this other =
     (case other of
        Inl x \<Rightarrow> i64_value this = i64_value x
      | Inr v \<Rightarrow> i64_value this = v)"

subsection \<open>Class \<^verbatim>\<open>u8\<close>\<close>

datatype u8 = U8 (u8_value: number)

definition u8_bounds_min :: number where
  "u8_bounds_min = Finite 0"

definition u8_bounds_max :: number where
  "u8_bounds_max = Finite 255"

definition u8_new :: "number \<Rightarrow> error + u8" where
  "u8_new v =
     (if js_less v u8_bounds_min \<or> js_less u8_bounds_max v
      then Inl (Error (range_message (Num v) (Num u8_bounds_min) (Num u8_bounds_max)))
      else Inr (U8 v))"

definition u8_write :: "u8 \<Rightarrow> Buffer \<Rightarrow> nat \<Rightarrow> error + Buffer \<times> nat" where
  "u8_write this buffer offset =
     (case writeUInt8 buffer (u8_value this) offset of
        Inl e \<Rightarrow> Inl e
      | Inr buffer' \<Rightarrow> Inr (buffer', offset + 1))"

definition u8_staticSize :: nat where
  "u8_staticSize = 1"

definition u8_serializedSize :: "u8 \<Rightarrow> nat" where
  "u8_serializedSize this = u8_staticSize"

definition u8_read :: "Buffer \<Rightarrow> nat \<Rightarrow> error + u8 \<times> nat" where
  "u8_read buffer offset =
     (case readUInt8 buffer offset of
        Inl e \<Rightarrow> Inl e
      | Inr v \<Rightarrow>
          (case u8_new v of
             Inl e \<Rightarrow> Inl e
           | Inr x \<Rightarrow> Inr (x, offset + 1)))"

definition u8_equals :: "u8 \<Rightarrow> u8 + number \<Rightarrow> bool" where
  "u8_equals this other =
     (case other of
        Inl x \<Rightarrow> js_strict_equals (u8_value this) (u8_value x)
      | Inr v \<Rightarrow> js_strict_equals (u8_value this) v)"

subsection \<open>Class \<^verbatim>\<open>u16\<close>\<close>

datatype u16 = U16 (u16_value: number)

definition u16_bounds_min :: number where
  "u16_bounds_min = Finite 0"

definition u16_bounds_max :: number where
  "u16_bounds_max = Finite 65535"

definition u16_new :: "number \<Rightarrow> error + u16" where
  "u16_new v =
     (if js_less v u16_bounds_min \<or> js_less u16_bounds_max v
      then Inl (Error (range_message (Num v) (Num u16_bounds_min) (Num u16_bounds_max)))
      else Inr (U16 v))"

definition u16_write :: "u16 \<Rightarrow> Buffer \<Rightarrow> nat \<Rightarrow> error + Buffer \<times> nat" where
  "u16_write this buffer offset =
     (case writeUInt16LE buffer (u16_value this) offset of
        Inl e \<Rightarrow> Inl e
      | Inr buffer' \<Rightarrow> Inr (buffer', offset + 1))"

definition u16_staticSize :: nat where
  "u16_staticSize = 1"

definition u16_serializedSize :: "u16 \<Rightarrow> nat" where
  "u16_serializedSize this = u16_staticSize"

definition u16_read :: "Buffer \<Rightarrow> nat \<Rightarrow> error + u16 \<times> nat" where
  "u16_read buffer offset =
     (case readUInt16LE buffer offset of
        Inl e \<Rightarrow> Inl e
      | Inr v \<Rightarrow>
          (case u16_new v of
             Inl e \<Rightarrow> Inl e
           | Inr x \<Rightarrow> Inr (x, offset + 1)))"

definition u16_equals :: "u16 \<Rightarrow> u16 + number \<Rightarrow> bool" where
  "u16_equals this other =
     (case other of
        Inl x \<Rightarrow> js_strict_equals (u16_value this) (u16_value x)
      | Inr v \<Rightarrow> js_strict_equals (u16_value this) v)"

subsection \<open>Class \<^verbatim>\<open>u32\<close>\<close>

datatype u32 = U32 (u32_value: number)

definition u32_bounds_min :: number where
  "u32_bounds_min = Finite 0"

definition u32_bounds_max :: number where
  "u32_bounds_max = Finite 4294967295"

definition u32_new :: "number \<Rightarrow> error + u32" where
  "u32_new v =
     (if js_less v u32_bounds_min \<or> js_less u32_bounds_max v
      then Inl (Error (range_message (Num v) (Num u32_bounds_min) (Num u32_bounds_max)))
      else Inr (U32 v))"

definition u32_write :: "u32 \<Rightarrow> Buffer \<Rightarrow> nat \<Rightarrow> error + Buffer \<times> nat" where
  "u32_write this buffer offset =
     (case writeUint32LE buffer (u32_value this) offset of
        Inl e \<Rightarrow> Inl e
      | Inr buffer' \<Rightarrow> Inr (buffer', offset + 1))"

definition u32_staticSize :: nat where
  "u32_staticSize = 1"

definition u32_serializedSize :: "u32 \<Rightarrow> nat" where
  "u32_serializedSize this = u32_staticSize"

definition u32_read :: "Buffer \<Rightarrow> nat \<Rightarrow> error + u32 \<times> nat" where
  "u32_read buffer offset =
     (case readUint32LE buffer offset of
        Inl e \<Rightarrow> Inl e
      | Inr v \<Rightarrow>
          (case u32_new v of
             Inl e \<Rightarrow> Inl e
           | Inr x \<Rightarrow> Inr (x, offset + 1)))"

definition u32_equals :: "u32 \<Rightarrow> u32 + number \<Rightarrow> bool" where
  "u32_equals this other =
     (case other of
        Inl x \<Rightarrow> js_strict_equals (u32_value this) (u32_value x)
      | Inr v \<Rightarrow> js_strict_equals (u32_value this) v)"

subsection \<open>Class \<^verbatim>\<open>u64\<close>\<close>

datatype u64 = U64 (u64_value: int)

definition u64_bounds_min :: int where
  "u64_bounds_min = 0"

definition u64_bounds_max :: int where
  "u64_bounds_max = 18446744073709551615"

definition u64_new :: "int \<Rightarrow> error + u64" where
  "u64_new v =
     (if v < u64_bounds_min \<or> v > u64_bounds_max
      then Inl (Error (range_message (Big v) (Big u64_bounds_min) (Big u64_bounds_max)))
      else Inr (U64 v))"

definition u64_write :: "u64 \<Rightarrow> Buffer \<Rightarrow> nat \<Rightarrow> error + Buffer \<times> nat" where
  "u64_write this buffer offset =
     (case writeBigUint64LE buffer (u64_value this) offset of
        Inl e \<Rightarrow> Inl e
      | Inr buffer' \<Rightarrow> Inr (buffer', offset + 1))"

definition u64_staticSize :: nat where
  "u64_staticSize = 1"

definition u64_serializedSize :: "u64 \<Rightarrow> nat" where
  "u64_serializedSize this = u64_staticSize"

definition u64_read :: "Buffer \<Rightarrow> nat \<Rightarrow> error + u64 \<times> nat" where
  "u64_read buffer offset =
     (case readBigUInt64LE buffer offset of
        Inl e \<Rightarrow> Inl e
      | Inr v \<Rightarrow>
          (case u64_new v of
             Inl e \<Rightarrow> Inl e
           | Inr x \<Rightarrow> Inr (x, offset + 1)))"

definition u64_equals :: "u64 \<Rightarrow> u64 + int \<Rightarrow> bool" where
  "u64_equals this other =
     (case other of
        Inl x \<Rightarrow> u64_value this = u64_value x
      | Inr v \<Rightarrow> u64_value this = v)"

section \<open>The identifier codec and the tagged reader and writer\<close>

text \<open>
  Modelled from the spec: the class \<^verbatim>\<open>PublicKey\<close> is imported from
  \<^verbatim>\<open>@solana/web3.js\<close> and is not under src/. The spec says an identifier wraps
  exactly 32 raw bytes, that any 32-byte sequence is valid and that equality is
  byte for byte. The library reads its input as a big-endian number, so leading zero
  bytes do not count: an input whose significant bytes exceed 32 is rejected, a shorter
  one is padded with zero bytes in front, and \<open>toBuffer\<close> gives the 32 bytes.
\<close>

datatype PublicKey = PublicKey (toBuffer: Buffer)

definition PublicKey_new :: "Buffer \<Rightarrow> error + PublicKey" where
  "PublicKey_new bytes =
     (let significant = dropWhile (\<lambda>b. b = 0) bytes
      in if 32 < length significant then Inl Invalid_public_key_input
         else Inr (PublicKey (replicate (32 - length significant) 0 @ significant)))"

definition PublicKey_equals :: "PublicKey \<Rightarrow> PublicKey \<Rightarrow> bool" where
  "PublicKey_equals a b = (toBuffer a = toBuffer b)"

subsection \<open>Class \<^verbatim>\<open>SerializablePublicKey\<close>\<close>

datatype SerializablePublicKey = SerializablePublicKey (key: PublicKey)

definition SerializablePublicKey_write ::
  "SerializablePublicKey \<Rightarrow> Buffer \<Rightarrow> nat \<Rightarrow> error + Buffer \<times> nat" where
  "SerializablePublicKey_write this buffer offset =
     Inr (Buffer_copy (toBuffer (key this)) buffer offset, offset + 32)"

definition SerializablePublicKey_serializedSize :: "SerializablePublicKey \<Rightarrow> nat" where
  "SerializablePublicKey_serializedSize this = 32"

definition SerializablePublicKey_read ::
  "Buffer \<Rightarrow> nat \<Rightarrow> error + SerializablePublicKey \<times> nat" where
  "SerializablePublicKey_read buffer offset =
     (case PublicKey_new (Buffer_slice buffer offset (offset + 32)) of
        Inl e \<Rightarrow> Inl e
      | Inr k \<Rightarrow> Inr (SerializablePublicKey k, offset + 32))"

definition SerializablePublicKey_staticSize :: nat where
  "SerializablePublicKey_staticSize = 32"

definition SerializablePublicKey_equals ::
  "SerializablePublicKey \<Rightarrow> SerializablePublicKey + PublicKey \<Rightarrow> bool" where
  "SerializablePublicKey_equals this other =
     (case other of
        Inl x \<Rightarrow> PublicKey_equals (key this) (key x)
      | Inr k \<Rightarrow> PublicKey_equals (key this) k)"

subsection \<open>The interfaces, as records of methods\<close>

text \<open>
  \<open>readAccount\<close> and \<open>serializeInstruction\<close> are generic: they see their type
  arguments only through the interfaces \<^verbatim>\<open>Serialize\<close>, \<^verbatim>\<open>Deserialize\<close>,
  \<^verbatim>\<open>Equals\<close>, \<^verbatim>\<open>Account\<close> and \<^verbatim>\<open>Instruction\<close>. A type argument is
  passed as the record of the methods the function calls on it.
\<close>

record 'a Serialize =
  Serialize_write :: "'a \<Rightarrow> Buffer \<Rightarrow> nat \<Rightarrow> error + Buffer \<times> nat"
  Serialize_serializedSize :: "'a \<Rightarrow> nat"

text \<open>\<^verbatim>\<open>dCons: Cons<D> & Deserialize<D>\<close> with \<^verbatim>\<open>D extends Equals<D>\<close>.\<close>

record 'd DCons =
  dCons_read :: "Buffer \<Rightarrow> nat \<Rightarrow> error + 'd \<times> nat"
  dCons_equals :: "'d \<Rightarrow> 'd \<Rightarrow> bool"

text \<open>\<^verbatim>\<open>tCons: Cons<T> & Deserialize<T> & Account<D, T>\<close>.\<close>

record ('d, 't) TCons =
  tCons_read :: "Buffer \<Rightarrow> nat \<Rightarrow> error + 't \<times> nat"
  tCons_discriminant :: "'d"

text \<open>
  The cursor parameter has the default \<^verbatim>\<open>{ offset: 0 }\<close>: \<open>None\<close> is a call
  without it. The result is the returned record, \<open>None\<close> for \<^verbatim>\<open>null\<close>, with the
  cursor as the call leaves it.
\<close>

definition readAccount ::
  "'d DCons \<Rightarrow> ('d, 't) TCons \<Rightarrow> Buffer \<Rightarrow> nat option \<Rightarrow> error + 't option \<times> nat" where
  "readAccount dCons tCons buffer offset_arg =
     (let offset = (case offset_arg of None \<Rightarrow> 0 | Some off \<Rightarrow> off)
      in case dCons_read dCons buffer offset of
           Inl e \<Rightarrow> Inl e
         | Inr (discriminant, offset1) \<Rightarrow>
             if dCons_equals dCons discriminant (tCons_discriminant tCons)
             then (case tCons_read tCons buffer offset1 of
                     Inl e \<Rightarrow> Inl e
                   | Inr (t, offset2) \<Rightarrow> Inr (Some t, offset2))
             else Inr (None, offset1))"

text \<open>
  \<open>serializeInstruction\<close> takes the discriminant that \<^verbatim>\<open>tCons.discriminant()\<close>
  returns, and the methods of \<open>D\<close> and \<open>T\<close>.
\<close>

definition serializeInstruction ::
  "'d Serialize \<Rightarrow> 't Serialize \<Rightarrow> 'd \<Rightarrow> 't \<Rightarrow> error + Buffer" where
  "serializeInstruction D T discriminant instruction =
     (let buffer = Buffer_alloc
            (Serialize_serializedSize D discriminant + Serialize_serializedSize T instruction)
      in case Serialize_write D discriminant buffer 0 of
           Inl e \<Rightarrow> Inl e
         | Inr (buffer1, offset1) \<Rightarrow>
             (case Serialize_write T instruction buffer1 offset1 of
                Inl e \<Rightarrow> Inl e
              | Inr (buffer2, offset2) \<Rightarrow> Inr buffer2))"

subsection \<open>The classes of the repository as type arguments\<close>

definition i8_Serialize :: "i8 Serialize" where
  "i8_Serialize = \<lparr>Serialize_write = i8_write, Serialize_serializedSize = i8_serializedSize\<rparr>"

definition i8_DCons :: "i8 DCons" where
  "i8_DCons = \<lparr>dCons_read = i8_read, dCons_equals = (\<lambda>a b. i8_equals a (Inl b))\<rparr>"

definition i16_Serialize :: "i16 Serialize" where
  "i16_Serialize = \<lparr>Serialize_write = i16_write, Serialize_serializedSize = i16_serializedSize\<rparr>"

definition i16_DCons :: "i16 DCons" where
  "i16_DCons = \<lparr>dCons_read = i16_read, dCons_equals = (\<lambda>a b. i16_equals a (Inl b))\<rparr>"

definition i32_Serialize :: "i32 Serialize" where
  "i32_Serialize = \<lparr>Serialize_write = i32_write, Serialize_serializedSize = i32_serializedSize\<rparr>"

definition i32_DCons :: "i32 DCons" where
  "i32_DCons = \<lparr>dCons_read = i32_read, dCons_equals = (\<lambda>a b. i32_equals a (Inl b))\<rparr>"

definition i64_Serialize :: "i64 Serialize" where
  "i64_Serialize = \<lparr>Serialize_write = i64_write, Serialize_serializedSize = i64_serializedSize\<rparr>"

definition i64_DCons :: "i64 DCons" where
  "i64_DCons = \<lparr>dCons_read = i64_read, dCons_equals = (\<lambda>a b. i64_equals a (Inl b))\<rparr>"

definition u8_Serialize :: "u8 Serialize" where
  "u8_Serialize = \<lparr>Serialize_write = u8_write, Serialize_serializedSize = u8_serializedSize\<rparr>"

definition u8_DCons :: "u8 DCons" where
  "u8_DCons = \<lparr>dCons_read = u8_read, dCons_equals = (\<lambda>a b. u8_equals a (Inl b))\<rparr>"

definition u16_Serialize :: "u16 Serialize" where
  "u16_Serialize = \<lparr>Serialize_write = u16_write, Serialize_serializedSize = u16_serializedSize\<rparr>"

definition u16_DCons :: "u16 DCons" where
  "u16_DCons = \<lparr>dCons_read = u16_read, dCons_equals = (\<lambda>a b. u16_equals a (Inl b))\<rparr>"

definition u32_Serialize :: "u32 Serialize" where
  "u32_Serialize = \<lparr>Serialize_write = u32_write, Serialize_serializedSize = u32_serializedSize\<rparr>"

definition u32_DCons :: "u32 DCons" where
  "u32_DCons = \<lparr>dCons_read = u32_read, dCons_equals = (\<lambda>a b. u32_equals a (Inl b))\<rparr>"

definition u64_Serialize :: "u64 Serialize" where
  "u64_Serialize = \<lparr>Serialize_write = u64_write, Serialize_serializedSize = u64_serializedSize\<rparr>"

definition u64_DCons :: "u64 DCons" where
  "u64_DCons = \<lparr>dCons_read = u64_read, dCons_equals = (\<lambda>a b. u64_equals a (Inl b))\<rparr>"

definition SerializablePublicKey_Serialize :: "SerializablePublicKey Serialize" where
  "SerializablePublicKey_Serialize =
     \<lparr>Serialize_write = SerializablePublicKey_write,
      Serialize_serializedSize = SerializablePublicKey_serializedSize\<rparr>"


section \<open>The byte encoding\<close>

text \<open>
  Writing \<open>w\<close> little-endian bytes and reading them back gives the value modulo
  \<open>256 ^ w\<close>; for a value inside the range of the width this is the value itself,
  after the sign is restored for the signed reads.
\<close>

lemma length_le_bytes: "length (le_bytes w v) = w"
  by (induction w arbitrary: v) simp_all

lemma le_value_le_bytes: "le_value (le_bytes w v) = v mod 256 ^ w"
proof (induction w arbitrary: v)
  case 0
  show ?case by simp
next
  case (Suc w)
  have "le_value (le_bytes (Suc w) v) = v mod 256 + 256 * (v div 256 mod 256 ^ w)"
    by (simp add: Suc.IH uint_word_of_int_eq take_bit_eq_mod)
  also have "\<dots> = v mod (256 * 256 ^ w)"
    using zmod_zmult2_eq [of "256 ^ w" v 256] by simp
  finally show ?case by simp
qed

lemma le_value_nonneg: "0 \<le> le_value bs"
  by (induction bs) simp_all

lemma le_value_less: "le_value bs < 256 ^ length bs"
proof (induction bs)
  case Nil
  show ?case by simp
next
  case (Cons b bs)
  have "uint b < 256"
    using uint_bounded [of b] by simp
  with Cons show ?case by simp
qed

lemma half_range: "0 < w \<Longrightarrow> (256::int) ^ w = 2 * 2 ^ (8 * w - 1)"
proof -
  assume "0 < w"
  then obtain k where k: "8 * w = Suc k"
    by (cases "8 * w") auto
  have "(256::int) ^ w = 2 ^ (8 * w)"
    by (simp add: power_mult)
  then show ?thesis
    using k by simp
qed

lemma to_signed_mod:
  assumes "0 < w" and "- (2 ^ (8 * w - 1)) \<le> v" and "v < 2 ^ (8 * w - 1)"
  shows "to_signed w (v mod 256 ^ w) = v"
proof -
  define H :: int where "H = 2 ^ (8 * w - 1)"
  have full: "(256::int) ^ w = 2 * H" and full': "(2::int) ^ (8 * w) = 2 * H"
    using half_range [OF assms(1)] by (simp_all add: H_def power_mult)
  have Hpos: "0 < H" by (simp add: H_def)
  have lo: "- H \<le> v" and hi: "v < H"
    using assms(2,3) by (simp_all add: H_def)
  have ts: "to_signed w x = (if H \<le> x then x - 2 * H else x)" for x
    unfolding to_signed_def full' H_def [symmetric] ..
  show ?thesis
  proof (cases "0 \<le> v")
    case True
    then have "v mod (2 * H) = v"
      using hi Hpos by simp
    then show ?thesis
      using hi by (simp add: ts full)
  next
    case False
    then have "(v + 2 * H) mod (2 * H) = v + 2 * H"
      using lo Hpos by (intro mod_pos_pos_trivial) simp_all
    then have "v mod (2 * H) = v + 2 * H"
      by simp
    then show ?thesis
      using lo by (simp add: ts full)
  qed
qed

lemma length_patch:
  "off + w \<le> length b \<Longrightarrow> length (take off b @ le_bytes w v @ drop (off + w) b) = length b"
  by (simp add: length_le_bytes)

lemma buffer_read_patch:
  "off + w \<le> length b \<Longrightarrow>
   buffer_read w (take off b @ le_bytes w v @ drop (off + w) b) off = Inr (v mod 256 ^ w)"
  by (simp add: buffer_read_def length_le_bytes le_value_le_bytes)

lemma buffer_read_Inr:
  "buffer_read w b off = Inr x \<longleftrightarrow> off + w \<le> length b \<and> x = le_value (take w (drop off b))"
  by (auto simp: buffer_read_def)

lemma buffer_read_range:
  "buffer_read w b off = Inr x \<Longrightarrow> 0 \<le> x \<and> x < 256 ^ w"
proof -
  assume "buffer_read w b off = Inr x"
  then have len: "off + w \<le> length b" and x: "x = le_value (take w (drop off b))"
    by (simp_all add: buffer_read_Inr)
  have "length (take w (drop off b)) = w"
    using len by simp
  then show ?thesis
    using le_value_nonneg [of "take w (drop off b)"] le_value_less [of "take w (drop off b)"] x
    by simp
qed

lemma read_back_unsigned:
  assumes "0 \<le> v" and "v < 256 ^ w" and "off + w \<le> length b"
  shows "buffer_read w (take off b @ le_bytes w v @ drop (off + w) b) off = Inr v"
proof -
  have "v mod 256 ^ w = v"
    using assms by (intro mod_pos_pos_trivial) simp_all
  then show ?thesis
    using assms(3) by (simp add: buffer_read_patch)
qed

lemma read_back_signed:
  assumes "- (2 ^ (8 * w - 1)) \<le> v" and "v < 2 ^ (8 * w - 1)" and "0 < w"
    and "off + w \<le> length b"
  shows "buffer_read_signed w (take off b @ le_bytes w v @ drop (off + w) b) off = Inr v"
proof -
  have "to_signed w (v mod 256 ^ w) = v"
    using assms by (intro to_signed_mod) simp_all
  then show ?thesis
    using assms(4) by (simp add: buffer_read_signed_def buffer_read_patch)
qed

lemma write_number_step_Inr:
  "(case write_number w lo hi b v off of Inl e \<Rightarrow> Inl e | Inr b' \<Rightarrow> Inr (b', off + s)) =
     Inr (b'', off') \<longleftrightarrow>
   \<not> js_less hi v \<and> \<not> js_less v lo \<and> off + w \<le> length b \<and>
   b'' = take off b @ le_bytes w (truncate_number v) @ drop (off + w) b \<and> off' = off + s"
  by (auto simp: write_number_def store_bytes_def)

lemma write_bigint_step_Inr:
  "(case write_bigint w lo hi b v off of Inl e \<Rightarrow> Inl e | Inr b' \<Rightarrow> Inr (b', off + s)) =
     Inr (b'', off') \<longleftrightarrow>
   lo \<le> v \<and> v \<le> hi \<and> off + w \<le> length b \<and>
   b'' = take off b @ le_bytes w v @ drop (off + w) b \<and> off' = off + s"
  by (auto simp: write_bigint_def store_bytes_def)

lemma truncate_number_of_int: "truncate_number (Finite (of_int n)) = n"
  by simp

section \<open>The numeric classes, method by method\<close>

text \<open>
  For each class: when the constructor succeeds, when \<open>write\<close> and \<open>read\<close>
  succeed, which bytes they touch and where they leave the cursor, and that an integer
  value that was written is read back from the same offset.
\<close>

subsection \<open>What the methods of \<^verbatim>\<open>i8\<close> do\<close>

lemma i8_new_Inr:
  "i8_new v = Inr x \<longleftrightarrow>
     \<not> js_less v (Finite (- 128)) \<and> \<not> js_less (Finite 127) v \<and> x = I8 v"
  by (auto simp: i8_new_def i8_bounds_min_def i8_bounds_max_def)

lemma i8_new_Inl:
  "i8_new v = Inl e \<longleftrightarrow>
     (js_less v (Finite (- 128)) \<or> js_less (Finite 127) v) \<and>
     e = Error [Num v, Text '' is not in range '', Num (Finite (- 128)), Text ''..'', Num (Finite 127)]"
  by (auto simp: i8_new_def i8_bounds_min_def i8_bounds_max_def range_message_def)

lemma i8_new_integer:
  "i8_new (Finite (of_int n)) = Inr x \<longleftrightarrow>
     - 128 \<le> n \<and> n \<le> 127 \<and> x = I8 (Finite (of_int n))"
  by (auto simp: i8_new_Inr)

lemma i8_write_Inr:
  "i8_write this buffer offset = Inr (buffer', offset') \<longleftrightarrow>
     \<not> js_less (Finite 127) (i8_value this) \<and> \<not> js_less (i8_value this) (Finite (- 128)) \<and>
     offset + 1 \<le> length buffer \<and>
     buffer' = take offset buffer @ le_bytes 1 (truncate_number (i8_value this)) @
       drop (offset + 1) buffer \<and>
     offset' = offset + 1"
  unfolding i8_write_def writeInt8_def by (rule write_number_step_Inr)

lemma i8_read_Inr:
  "i8_read buffer offset = Inr (x, offset') \<longleftrightarrow>
     offset + 1 \<le> length buffer \<and>
     x = I8 (Finite (of_int (to_signed 1 (le_value (take 1 (drop offset buffer)))))) \<and>
     offset' = offset + 1"
proof (cases "offset + 1 \<le> length buffer")
  case False
  then have "buffer_read 1 buffer offset = Inl (bounds_error 1 buffer)"
    by (simp add: buffer_read_def)
  then have "readInt8 buffer offset = Inl (bounds_error 1 buffer)"
    by (simp add: readInt8_def buffer_read_signed_def as_number_def)
  then show ?thesis
    using False unfolding i8_read_def by simp
next
  case True
  let ?raw = "le_value (take 1 (drop offset buffer))"
  have raw: "buffer_read 1 buffer offset = Inr ?raw"
    using True by (simp add: buffer_read_def)
  have range: "0 \<le> ?raw \<and> ?raw < 256 ^ 1"
    using raw by (rule buffer_read_range)
  have rd: "readInt8 buffer offset = Inr (Finite (of_int (to_signed 1 (?raw))))"
    using raw by (simp add: readInt8_def buffer_read_signed_def as_number_def)
  from range have new: "i8_new (Finite (of_int (to_signed 1 (?raw)))) = Inr (I8 (Finite (of_int (to_signed 1 (?raw)))))"
    by (simp add: i8_new_integer to_signed_def)
  show ?thesis
    unfolding i8_read_def rd sum.case new
    using True by auto
qed

lemma i8_roundtrip:
  assumes "i8_new (Finite (of_int (n))) = Inr x" and "offset + 1 \<le> length buffer"
  shows "\<exists>buffer'. i8_write x buffer offset = Inr (buffer', offset + 1) \<and>
           length buffer' = length buffer \<and>
           i8_read buffer' offset = Inr (x, offset + 1)"
proof -
  from assms(1) have n: "- 128 \<le> n" "n \<le> 127" and x: "x = I8 (Finite (of_int (n)))"
    by (simp_all add: i8_new_integer)
  let ?b = "take offset buffer @ le_bytes 1 n @ drop (offset + 1) buffer"
  have "i8_write x buffer offset = Inr (?b, offset + 1)"
    using n assms(2) by (simp add: i8_write_Inr x)
  moreover have len: "length ?b = length buffer"
    using assms(2) by (rule length_patch)
  moreover have "i8_read ?b offset = Inr (x, offset + 1)"
  proof -
    have "buffer_read_signed 1 ?b offset = Inr n"
      by (rule read_back_signed) (use n assms(2) in simp_all)
    then have "to_signed 1 (le_value (take 1 (drop offset ?b))) = n" and "offset + 1 \<le> length ?b"
      by (simp_all add: buffer_read_signed_def buffer_read_def split: if_splits)
    then show ?thesis
      unfolding i8_read_Inr x by simp
  qed
  ultimately show ?thesis by blast
qed

subsection \<open>What the methods of \<^verbatim>\<open>i16\<close> do\<close>

lemma i16_new_Inr:
  "i16_new v = Inr x \<longleftrightarrow>
     \<not> js_less v (Finite (- 32768)) \<and> \<not> js_less (Finite 32767) v \<and> x = I16 v"
  by (auto simp: i16_new_def i16_bounds_min_def i16_bounds_max_def)

lemma i16_new_Inl:
  "i16_new v = Inl e \<longleftrightarrow>
     (js_less v (Finite (- 32768)) \<or> js_less (Finite 32767) v) \<and>
     e = Error [Num v, Text '' is not in range '', Num (Finite (- 32768)), Text ''..'', Num (Finite 32767)]"
  by (auto simp: i16_new_def i16_bounds_min_def i16_bounds_max_def range_message_def)

lemma i16_new_integer:
  "i16_new (Finite (of_int n)) = Inr x \<longleftrightarrow>
     - 32768 \<le> n \<and> n \<le> 32767 \<and> x = I16 (Finite (of_int n))"
  by (auto simp: i16_new_Inr)

lemma i16_write_Inr:
  "i16_write this buffer offset = Inr (buffer', offset') \<longleftrightarrow>
     \<not> js_less (Finite 32767) (i16_value this) \<and> \<not> js_less (i16_value this) (Finite (- 32768)) \<and>
     offset + 2 \<le> length buffer \<and>
     buffer' = take offset buffer @ le_bytes 2 (truncate_number (i16_value this)) @
       drop (offset + 2) buffer \<and>
     offset' = offset + 2"
  unfolding i16_write_def writeInt16LE_def by (rule write_number_step_Inr)

lemma i16_read_Inr:
  "i16_read buffer offset = Inr (x, offset') \<longleftrightarrow>
     offset + 2 \<le> length buffer \<and>
     x = I16 (Finite (of_int (to_signed 2 (le_value (take 2 (drop offset buffer)))))) \<and>
     offset' = offset + 2"
proof (cases "offset + 2 \<le> length buffer")
  case False
  then have "buffer_read 2 buffer offset = Inl (bounds_error 2 buffer)"
    by (simp add: buffer_read_def)
  then have "readInt16LE buffer offset = Inl (bounds_error 2 buffer)"
    by (simp add: readInt16LE_def buffer_read_signed_def as_number_def)
  then show ?thesis
    using False unfolding i16_read_def by simp
next
  case True
  let ?raw = "le_value (take 2 (drop offset buffer))"
  have raw: "buffer_read 2 buffer offset = Inr ?raw"
    using True by (simp add: buffer_read_def)
  have range: "0 \<le> ?raw \<and> ?raw < 256 ^ 2"
    using raw by (rule buffer_read_range)
  have rd: "readInt16LE buffer offset = Inr (Finite (of_int (to_signed 2 (?raw))))"
    using raw by (simp add: readInt16LE_def buffer_read_signed_def as_number_def)
  from range have new: "i16_new (Finite (of_int (to_signed 2 (?raw)))) = Inr (I16 (Finite (of_int (to_signed 2 (?raw)))))"
    by (simp add: i16_new_integer to_signed_def)
  show ?thesis
    unfolding i16_read_def rd sum.case new
    using True by auto
qed

lemma i16_roundtrip:
  assumes "i16_new (Finite (of_int (n))) = Inr x" and "offset + 2 \<le> length buffer"
  shows "\<exists>buffer'. i16_write x buffer offset = Inr (buffer', offset + 2) \<and>
           length buffer' = length buffer \<and>
           i16_read buffer' offset = Inr (x, offset + 2)"
proof -
  from assms(1) have n: "- 32768 \<le> n" "n \<le> 32767" and x: "x = I16 (Finite (of_int (n)))"
    by (simp_all add: i16_new_integer)
  let ?b = "take offset buffer @ le_bytes 2 n @ drop (offset + 2) buffer"
  have "i16_write x buffer offset = Inr (?b, offset + 2)"
    using n assms(2) by (simp add: i16_write_Inr x)
  moreover have len: "length ?b = length buffer"
    using assms(2) by (rule length_patch)
  moreover have "i16_read ?b offset = Inr (x, offset + 2)"
  proof -
    have "buffer_read_signed 2 ?b offset = Inr n"
      by (rule read_back_signed) (use n assms(2) in simp_all)
    then have "to_signed 2 (le_value (take 2 (drop offset ?b))) = n" and "offset + 2 \<le> length ?b"
      by (simp_all add: buffer_read_signed_def buffer_read_def split: if_splits)
    then show ?thesis
      unfolding i16_read_Inr x by simp
  qed
  ultimately show ?thesis by blast
qed

subsection \<open>What the methods of \<^verbatim>\<open>i32\<close> do\<close>

lemma i32_new_Inr:
  "i32_new v = Inr x \<longleftrightarrow>
     \<not> js_less v (Finite (- 2147483648)) \<and> \<not> js_less (Finite 2147483647) v \<and> x = I32 v"
  by (auto simp: i32_new_def i32_bounds_min_def i32_bounds_max_def)

lemma i32_new_Inl:
  "i32_new v = Inl e \<longleftrightarrow>
     (js_less v (Finite (- 2147483648)) \<or> js_less (Finite 2147483647) v) \<and>
     e = Error [Num v, Text '' is not in range '', Num (Finite (- 2147483648)), Text ''..'', Num (Finite 2147483647)]"
  by (auto simp: i32_new_def i32_bounds_min_def i32_bounds_max_def range_message_def)

lemma i32_new_integer:
  "i32_new (Finite (of_int n)) = Inr x \<longleftrightarrow>
     - 2147483648 \<le> n \<and> n \<le> 2147483647 \<and> x = I32 (Finite (of_int n))"
  by (auto simp: i32_new_Inr)

lemma i32_write_Inr:
  "i32_write this buffer offset = Inr (buffer', offset') \<longleftrightarrow>
     \<not> js_less (Finite 2147483647) (i32_value this) \<and> \<not> js_less (i32_value this) (Finite (- 2147483648)) \<and>
     offset + 4 \<le> length buffer \<and>
     buffer' = take offset buffer @ le_bytes 4 (truncate_number (i32_value this)) @
       drop (offset + 4) buffer \<and>
     offset' = offset + 4"
  unfolding i32_write_def writeInt32LE_def by (rule write_number_step_Inr)

lemma i32_read_Inr:
  "i32_read buffer offset = Inr (x, offset') \<longleftrightarrow>
     offset + 4 \<le> length buffer \<and>
     x = I32 (Finite (of_int (to_signed 4 (le_value (take 4 (drop offset buffer)))))) \<and>
     offset' = offset + 4"
proof (cases "offset + 4 \<le> length buffer")
  case False
  then have "buffer_read 4 buffer offset = Inl (bounds_error 4 buffer)"
    by (simp add: buffer_read_def)
  then have "readInt32LE buffer offset = Inl (bounds_error 4 buffer)"
    by (simp add: readInt32LE_def buffer_read_signed_def as_number_def)
  then show ?thesis
    using False unfolding i32_read_def by simp
next
  case True
  let ?raw = "le_value (take 4 (drop offset buffer))"
  have raw: "buffer_read 4 buffer offset = Inr ?raw"
    using True by (simp add: buffer_read_def)
  have range: "0 \<le> ?raw \<and> ?raw < 256 ^ 4"
    using raw by (rule buffer_read_range)
  have rd: "readInt32LE buffer offset = Inr (Finite (of_int (to_signed 4 (?raw))))"
    using raw by (simp add: readInt32LE_def buffer_read_signed_def as_number_def)
  from range have new: "i32_new (Finite (of_int (to_signed 4 (?raw)))) = Inr (I32 (Finite (of_int (to_signed 4 (?raw)))))"
    by (simp add: i32_new_integer to_signed_def)
  show ?thesis
    unfolding i32_read_def rd sum.case new
    using True by auto
qed

lemma i32_roundtrip:
  assumes "i32_new (Finite (of_int (n))) = Inr x" and "offset + 4 \<le> length buffer"
  shows "\<exists>buffer'. i32_write x buffer offset = Inr (buffer', offset + 4) \<and>
           length buffer' = length buffer \<and>
           i32_read buffer' offset = Inr (x, offset + 4)"
proof -
  from assms(1) have n: "- 2147483648 \<le> n" "n \<le> 2147483647" and x: "x = I32 (Finite (of_int (n)))"
    by (simp_all add: i32_new_integer)
  let ?b = "take offset buffer @ le_bytes 4 n @ drop (offset + 4) buffer"
  have "i32_write x buffer offset = Inr (?b, offset + 4)"
    using n assms(2) by (simp add: i32_write_Inr x)
  moreover have len: "length ?b = length buffer"
    using assms(2) by (rule length_patch)
  moreover have "i32_read ?b offset = Inr (x, offset + 4)"
  proof -
    have "buffer_read_signed 4 ?b offset = Inr n"
      by (rule read_back_signed) (use n assms(2) in simp_all)
    then have "to_signed 4 (le_value (take 4 (drop offset ?b))) = n" and "offset + 4 \<le> length ?b"
      by (simp_all add: buffer_read_signed_def buffer_read_def split: if_splits)
    then show ?thesis
      unfolding i32_read_Inr x by simp
  qed
  ultimately show ?thesis by blast
qed

subsection \<open>What the methods of \<^verbatim>\<open>i64\<close> do\<close>

lemma i64_new_Inr:
  "i64_new v = Inr x \<longleftrightarrow> - 9223372036854775808 \<le> v \<and> v \<le> 9223372036854775807 \<and> x = I64 v"
  by (auto simp: i64_new_def i64_bounds_min_def i64_bounds_max_def)

lemma i64_new_Inl:
  "i64_new v = Inl e \<longleftrightarrow>
     (v < - 9223372036854775808 \<or> 9223372036854775807 < v) \<and>
     e = Error [Big v, Text '' is not in range '', Big (- 9223372036854775808), Text ''..'', Big 9223372036854775807]"
  by (auto simp: i64_new_def i64_bounds_min_def i64_bounds_max_def range_message_def)

lemma i64_write_Inr:
  "i64_write this buffer offset = Inr (buffer', offset') \<longleftrightarrow>
     - 9223372036854775808 \<le> i64_value this \<and> i64_value this \<le> 9223372036854775807 \<and>
     offset + 8 \<le> length buffer \<and>
     buffer' = take offset buffer @ le_bytes 8 (i64_value this) @ drop (offset + 8) buffer \<and>
     offset' = offset + 8"
  unfolding i64_write_def writeBigInt64LE_def by (rule write_bigint_step_Inr)

lemma i64_read_Inr:
  "i64_read buffer offset = Inr (x, offset') \<longleftrightarrow>
     offset + 8 \<le> length buffer \<and>
     x = I64 (to_signed 8 (le_value (take 8 (drop offset buffer)))) \<and>
     offset' = offset + 8"
proof (cases "offset + 8 \<le> length buffer")
  case False
  then have "buffer_read 8 buffer offset = Inl (bounds_error 8 buffer)"
    by (simp add: buffer_read_def)
  then have "readBigInt64LE buffer offset = Inl (bounds_error 8 buffer)"
    by (simp add: readBigInt64LE_def buffer_read_signed_def)
  then show ?thesis
    using False unfolding i64_read_def by simp
next
  case True
  let ?raw = "le_value (take 8 (drop offset buffer))"
  have raw: "buffer_read 8 buffer offset = Inr ?raw"
    using True by (simp add: buffer_read_def)
  have range: "0 \<le> ?raw \<and> ?raw < 256 ^ 8"
    using raw by (rule buffer_read_range)
  have rd: "readBigInt64LE buffer offset = Inr (to_signed 8 (?raw))"
    using raw by (simp add: readBigInt64LE_def buffer_read_signed_def)
  from range have new: "i64_new (to_signed 8 (?raw)) = Inr (I64 (to_signed 8 (?raw)))"
    by (simp add: i64_new_Inr to_signed_def)
  show ?thesis
    unfolding i64_read_def rd sum.case new
    using True by auto
qed

lemma i64_roundtrip:
  assumes "i64_new (n) = Inr x" and "offset + 8 \<le> length buffer"
  shows "\<exists>buffer'. i64_write x buffer offset = Inr (buffer', offset + 8) \<and>
           length buffer' = length buffer \<and>
           i64_read buffer' offset = Inr (x, offset + 8)"
proof -
  from assms(1) have n: "- 9223372036854775808 \<le> n" "n \<le> 9223372036854775807" and x: "x = I64 (n)"
    by (simp_all add: i64_new_Inr)
  let ?b = "take offset buffer @ le_bytes 8 n @ drop (offset + 8) buffer"
  have "i64_write x buffer offset = Inr (?b, offset + 8)"
    using n assms(2) by (simp add: i64_write_Inr x)
  moreover have len: "length ?b = length buffer"
    using assms(2) by (rule length_patch)
  moreover have "i64_read ?b offset = Inr (x, offset + 8)"
  proof -
    have "buffer_read_signed 8 ?b offset = Inr n"
      by (rule read_back_signed) (use n assms(2) in simp_all)
    then have "to_signed 8 (le_value (take 8 (drop offset ?b))) = n" and "offset + 8 \<le> length ?b"
      by (simp_all add: buffer_read_signed_def buffer_read_def split: if_splits)
    then show ?thesis
      unfolding i64_read_Inr x by simp
  qed
  ultimately show ?thesis by blast
qed

subsection \<open>What the methods of \<^verbatim>\<open>u8\<close> do\<close>

lemma u8_new_Inr:
  "u8_new v = Inr x \<longleftrightarrow>
     \<not> js_less v (Finite 0) \<and> \<not> js_less (Finite 255) v \<and> x = U8 v"
  by (auto simp: u8_new_def u8_bounds_min_def u8_bounds_max_def)

lemma u8_new_Inl:
  "u8_new v = Inl e \<longleftrightarrow>
     (js_less v (Finite 0) \<or> js_less (Finite 255) v) \<and>
     e = Error [Num v, Text '' is not in range '', Num (Finite 0), Text ''..'', Num (Finite 255)]"
  by (auto simp: u8_new_def u8_bounds_min_def u8_bounds_max_def range_message_def)

lemma u8_new_integer:
  "u8_new (Finite (of_int n)) = Inr x \<longleftrightarrow>
     0 \<le> n \<and> n \<le> 255 \<and> x = U8 (Finite (of_int n))"
  by (auto simp: u8_new_Inr)

lemma u8_write_Inr:
  "u8_write this buffer offset = Inr (buffer', offset') \<longleftrightarrow>
     \<not> js_less (Finite 255) (u8_value this) \<and> \<not> js_less (u8_value this) (Finite 0) \<and>
     offset + 1 \<le> length buffer \<and>
     buffer' = take offset buffer @ le_bytes 1 (truncate_number (u8_value this)) @
       drop (offset + 1) buffer \<and>
     offset' = offset + 1"
  unfolding u8_write_def writeUInt8_def by (rule write_number_step_Inr)

lemma u8_read_Inr:
  "u8_read buffer offset = Inr (x, offset') \<longleftrightarrow>
     offset + 1 \<le> length buffer \<and>
     x = U8 (Finite (of_int (le_value (take 1 (drop offset buffer))))) \<and>
     offset' = offset + 1"
proof (cases "offset + 1 \<le> length buffer")
  case False
  then have "buffer_read 1 buffer offset = Inl (bounds_error 1 buffer)"
    by (simp add: buffer_read_def)
  then have "readUInt8 buffer offset = Inl (bounds_error 1 buffer)"
    by (simp add: readUInt8_def as_number_def)
  then show ?thesis
    using False unfolding u8_read_def by simp
next
  case True
  let ?raw = "le_value (take 1 (drop offset buffer))"
  have raw: "buffer_read 1 buffer offset = Inr ?raw"
    using True by (simp add: buffer_read_def)
  have range: "0 \<le> ?raw \<and> ?raw < 256 ^ 1"
    using raw by (rule buffer_read_range)
  have rd: "readUInt8 buffer offset = Inr (Finite (of_int (?raw)))"
    using raw by (simp add: readUInt8_def as_number_def)
  from range have new: "u8_new (Finite (of_int (?raw))) = Inr (U8 (Finite (of_int (?raw))))"
    by (simp add: u8_new_integer)
  show ?thesis
    unfolding u8_read_def rd sum.case new
    using True by auto
qed

lemma u8_roundtrip:
  assumes "u8_new (Finite (of_int (n))) = Inr x" and "offset + 1 \<le> length buffer"
  shows "\<exists>buffer'. u8_write x buffer offset = Inr (buffer', offset + 1) \<and>
           length buffer' = length buffer \<and>
           u8_read buffer' offset = Inr (x, offset + 1)"
proof -
  from assms(1) have n: "0 \<le> n" "n \<le> 255" and x: "x = U8 (Finite (of_int (n)))"
    by (simp_all add: u8_new_integer)
  let ?b = "take offset buffer @ le_bytes 1 n @ drop (offset + 1) buffer"
  have "u8_write x buffer offset = Inr (?b, offset + 1)"
    using n assms(2) by (simp add: u8_write_Inr x)
  moreover have len: "length ?b = length buffer"
    using assms(2) by (rule length_patch)
  moreover have "u8_read ?b offset = Inr (x, offset + 1)"
  proof -
    have "buffer_read 1 ?b offset = Inr n"
      by (rule read_back_unsigned) (use n assms(2) in simp_all)
    then have "le_value (take 1 (drop offset ?b)) = n" and "offset + 1 \<le> length ?b"
      by (simp_all add: buffer_read_def split: if_splits)
    then show ?thesis
      unfolding u8_read_Inr x by simp
  qed
  ultimately show ?thesis by blast
qed

subsection \<open>What the methods of \<^verbatim>\<open>u16\<close> do\<close>

lemma u16_new_Inr:
  "u16_new v = Inr x \<longleftrightarrow>
     \<not> js_less v (Finite 0) \<and> \<not> js_less (Finite 65535) v \<and> x = U16 v"
  by (auto simp: u16_new_def u16_bounds_min_def u16_bounds_max_def)

lemma u16_new_Inl:
  "u16_new v = Inl e \<longleftrightarrow>
     (js_less v (Finite 0) \<or> js_less (Finite 65535) v) \<and>
     e = Error [Num v, Text '' is not in range '', Num (Finite 0), Text ''..'', Num (Finite 65535)]"
  by (auto simp: u16_new_def u16_bounds_min_def u16_bounds_max_def range_message_def)

lemma u16_new_integer:
  "u16_new (Finite (of_int n)) = Inr x \<longleftrightarrow>
     0 \<le> n \<and> n \<le> 65535 \<and> x = U16 (Finite (of_int n))"
  by (auto simp: u16_new_Inr)

lemma u16_write_Inr:
  "u16_write this buffer offset = Inr (buffer', offset') \<longleftrightarrow>
     \<not> js_less (Finite 65535) (u16_value this) \<and> \<not> js_less (u16_value this) (Finite 0) \<and>
     offset + 2 \<le> length buffer \<and>
     buffer' = take offset buffer @ le_bytes 2 (truncate_number (u16_value this)) @
       drop (offset + 2) buffer \<and>
     offset' = offset + 1"
  unfolding u16_write_def writeUInt16LE_def by (rule write_number_step_Inr)

lemma u16_read_Inr:
  "u16_read buffer offset = Inr (x, offset') \<longleftrightarrow>
     offset + 2 \<le> length buffer \<and>
     x = U16 (Finite (of_int (le_value (take 2 (drop offset buffer))))) \<and>
     offset' = offset + 1"
proof (cases "offset + 2 \<le> length buffer")
  case False
  then have "buffer_read 2 buffer offset = Inl (bounds_error 2 buffer)"
    by (simp add: buffer_read_def)
  then have "readUInt16LE buffer offset = Inl (bounds_error 2 buffer)"
    by (simp add: readUInt16LE_def as_number_def)
  then show ?thesis
    using False unfolding u16_read_def by simp
next
  case True
  let ?raw = "le_value (take 2 (drop offset buffer))"
  have raw: "buffer_read 2 buffer offset = Inr ?raw"
    using True by (simp add: buffer_read_def)
  have range: "0 \<le> ?raw \<and> ?raw < 256 ^ 2"
    using raw by (rule buffer_read_range)
  have rd: "readUInt16LE buffer offset = Inr (Finite (of_int (?raw)))"
    using raw by (simp add: readUInt16LE_def as_number_def)
  from range have new: "u16_new (Finite (of_int (?raw))) = Inr (U16 (Finite (of_int (?raw))))"
    by (simp add: u16_new_integer)
  show ?thesis
    unfolding u16_read_def rd sum.case new
    using True by auto
qed

lemma u16_roundtrip:
  assumes "u16_new (Finite (of_int (n))) = Inr x" and "offset + 2 \<le> length buffer"
  shows "\<exists>buffer'. u16_write x buffer offset = Inr (buffer', offset + 1) \<and>
           length buffer' = length buffer \<and>
           u16_read buffer' offset = Inr (x, offset + 1)"
proof -
  from assms(1) have n: "0 \<le> n" "n \<le> 65535" and x: "x = U16 (Finite (of_int (n)))"
    by (simp_all add: u16_new_integer)
  let ?b = "take offset buffer @ le_bytes 2 n @ drop (offset + 2) buffer"
  have "u16_write x buffer offset = Inr (?b, offset + 1)"
    using n assms(2) by (simp add: u16_write_Inr x)
  moreover have len: "length ?b = length buffer"
    using assms(2) by (rule length_patch)
  moreover have "u16_read ?b offset = Inr (x, offset + 1)"
  proof -
    have "buffer_read 2 ?b offset = Inr n"
      by (rule read_back_unsigned) (use n assms(2) in simp_all)
    then have "le_value (take 2 (drop offset ?b)) = n" and "offset + 2 \<le> length ?b"
      by (simp_all add: buffer_read_def split: if_splits)
    then show ?thesis
      unfolding u16_read_Inr x by simp
  qed
  ultimately show ?thesis by blast
qed

subsection \<open>What the methods of \<^verbatim>\<open>u32\<close> do\<close>

lemma u32_new_Inr:
  "u32_new v = Inr x \<longleftrightarrow>
     \<not> js_less v (Finite 0) \<and> \<not> js_less (Finite 4294967295) v \<and> x = U32 v"
  by (auto simp: u32_new_def u32_bounds_min_def u32_bounds_max_def)

lemma u32_new_Inl:
  "u32_new v = Inl e \<longleftrightarrow>
     (js_less v (Finite 0) \<or> js_less (Finite 4294967295) v) \<and>
     e = Error [Num v, Text '' is not in range '', Num (Finite 0), Text ''..'', Num (Finite 4294967295)]"
  by (auto simp: u32_new_def u32_bounds_min_def u32_bounds_max_def range_message_def)

lemma u32_new_integer:
  "u32_new (Finite (of_int n)) = Inr x \<longleftrightarrow>
     0 \<le> n \<and> n \<le> 4294967295 \<and> x = U32 (Finite (of_int n))"
  by (auto simp: u32_new_Inr)

lemma u32_write_Inr:
  "u32_write this buffer offset = Inr (buffer', offset') \<longleftrightarrow>
     \<not> js_less (Finite 4294967295) (u32_value this) \<and> \<not> js_less (u32_value this) (Finite 0) \<and>
     offset + 4 \<le> length buffer \<and>
     buffer' = take offset buffer @ le_bytes 4 (truncate_number (u32_value this)) @
       drop (offset + 4) buffer \<and>
     offset' = offset + 1"
  unfolding u32_write_def writeUint32LE_def by (rule write_number_step_Inr)

lemma u32_read_Inr:
  "u32_read buffer offset = Inr (x, offset') \<longleftrightarrow>
     offset + 4 \<le> length buffer \<and>
     x = U32 (Finite (of_int (le_value (take 4 (drop offset buffer))))) \<and>
     offset' = offset + 1"
proof (cases "offset + 4 \<le> length buffer")
  case False
  then have "buffer_read 4 buffer offset = Inl (bounds_error 4 buffer)"
    by (simp add: buffer_read_def)
  then have "readUint32LE buffer offset = Inl (bounds_error 4 buffer)"
    by (simp add: readUint32LE_def as_number_def)
  then show ?thesis
    using False unfolding u32_read_def by simp
next
  case True
  let ?raw = "le_value (take 4 (drop offset buffer))"
  have raw: "buffer_read 4 buffer offset = Inr ?raw"
    using True by (simp add: buffer_read_def)
  have range: "0 \<le> ?raw \<and> ?raw < 256 ^ 4"
    using raw by (rule buffer_read_range)
  have rd: "readUint32LE buffer offset = Inr (Finite (of_int (?raw)))"
    using raw by (simp add: readUint32LE_def as_number_def)
  from range have new: "u32_new (Finite (of_int (?raw))) = Inr (U32 (Finite (of_int (?raw))))"
    by (simp add: u32_new_integer)
  show ?thesis
    unfolding u32_read_def rd sum.case new
    using True by auto
qed

lemma u32_roundtrip:
  assumes "u32_new (Finite (of_int (n))) = Inr x" and "offset + 4 \<le> length buffer"
  shows "\<exists>buffer'. u32_write x buffer offset = Inr (buffer', offset + 1) \<and>
           length buffer' = length buffer \<and>
           u32_read buffer' offset = Inr (x, offset + 1)"
proof -
  from assms(1) have n: "0 \<le> n" "n \<le> 4294967295" and x: "x = U32 (Finite (of_int (n)))"
    by (simp_all add: u32_new_integer)
  let ?b = "take offset buffer @ le_bytes 4 n @ drop (offset + 4) buffer"
  have "u32_write x buffer offset = Inr (?b, offset + 1)"
    using n assms(2) by (simp add: u32_write_Inr x)
  moreover have len: "length ?b = length buffer"
    using assms(2) by (rule length_patch)
  moreover have "u32_read ?b offset = Inr (x, offset + 1)"
  proof -
    have "buffer_read 4 ?b offset = Inr n"
      by (rule read_back_unsigned) (use n assms(2) in simp_all)
    then have "le_value (take 4 (drop offset ?b)) = n" and "offset + 4 \<le> length ?b"
      by (simp_all add: buffer_read_def split: if_splits)
    then show ?thesis
      unfolding u32_read_Inr x by simp
  qed
  ultimately show ?thesis by blast
qed

subsection \<open>What the methods of \<^verbatim>\<open>u64\<close> do\<close>

lemma u64_new_Inr:
  "u64_new v = Inr x \<longleftrightarrow> 0 \<le> v \<and> v \<le> 18446744073709551615 \<and> x = U64 v"
  by (auto simp: u64_new_def u64_bounds_min_def u64_bounds_max_def)

lemma u64_new_Inl:
  "u64_new v = Inl e \<longleftrightarrow>
     (v < 0 \<or> 18446744073709551615 < v) \<and>
     e = Error [Big v, Text '' is not in range '', Big 0, Text ''..'', Big 18446744073709551615]"
  by (auto simp: u64_new_def u64_bounds_min_def u64_bounds_max_def range_message_def)

lemma u64_write_Inr:
  "u64_write this buffer offset = Inr (buffer', offset') \<longleftrightarrow>
     0 \<le> u64_value this \<and> u64_value this \<le> 18446744073709551615 \<and>
     offset + 8 \<le> length buffer \<and>
     buffer' = take offset buffer @ le_bytes 8 (u64_value this) @ drop (offset + 8) buffer \<and>
     offset' = offset + 1"
  unfolding u64_write_def writeBigUint64LE_def by (rule write_bigint_step_Inr)

lemma u64_read_Inr:
  "u64_read buffer offset = Inr (x, offset') \<longleftrightarrow>
     offset + 8 \<le> length buffer \<and>
     x = U64 (le_value (take 8 (drop offset buffer))) \<and>
     offset' = offset + 1"
proof (cases "offset + 8 \<le> length buffer")
  case False
  then have "buffer_read 8 buffer offset = Inl (bounds_error 8 buffer)"
    by (simp add: buffer_read_def)
  then have "readBigUInt64LE buffer offset = Inl (bounds_error 8 buffer)"
    by (simp add: readBigUInt64LE_def)
  then show ?thesis
    using False unfolding u64_read_def by simp
next
  case True
  let ?raw = "le_value (take 8 (drop offset buffer))"
  have raw: "buffer_read 8 buffer offset = Inr ?raw"
    using True by (simp add: buffer_read_def)
  have range: "0 \<le> ?raw \<and> ?raw < 256 ^ 8"
    using raw by (rule buffer_read_range)
  have rd: "readBigUInt64LE buffer offset = Inr (?raw)"
    using raw by (simp add: readBigUInt64LE_def)
  from range have new: "u64_new (?raw) = Inr (U64 (?raw))"
    by (simp add: u64_new_Inr)
  show ?thesis
    unfolding u64_read_def rd sum.case new
    using True by auto
qed

lemma u64_roundtrip:
  assumes "u64_new (n) = Inr x" and "offset + 8 \<le> length buffer"
  shows "\<exists>buffer'. u64_write x buffer offset = Inr (buffer', offset + 1) \<and>
           length buffer' = length buffer \<and>
           u64_read buffer' offset = Inr (x, offset + 1)"
proof -
  from assms(1) have n: "0 \<le> n" "n \<le> 18446744073709551615" and x: "x = U64 (n)"
    by (simp_all add: u64_new_Inr)
  let ?b = "take offset buffer @ le_bytes 8 n @ drop (offset + 8) buffer"
  have "u64_write x buffer offset = Inr (?b, offset + 1)"
    using n assms(2) by (simp add: u64_write_Inr x)
  moreover have len: "length ?b = length buffer"
    using assms(2) by (rule length_patch)
  moreover have "u64_read ?b offset = Inr (x, offset + 1)"
  proof -
    have "buffer_read 8 ?b offset = Inr n"
      by (rule read_back_unsigned) (use n assms(2) in simp_all)
    then have "le_value (take 8 (drop offset ?b)) = n" and "offset + 8 \<le> length ?b"
      by (simp_all add: buffer_read_def split: if_splits)
    then show ?thesis
      unfolding u64_read_Inr x by simp
  qed
  ultimately show ?thesis by blast
qed


section \<open>Cursor steps and sizes, class by class\<close>

text \<open>
  For \<open>i8\<close>, \<open>i16\<close>, \<open>i32\<close>, \<open>i64\<close> and \<open>u8\<close> the cursor moves by the number
  of bytes the call writes or reads, and \<open>staticSize\<close> is that number.
\<close>

lemma cursor_step_signed_and_u8:
  "i8_write a8 b off = Inr (b', off') \<Longrightarrow> off' = off + 1"
  "i8_read b off = Inr (a8, off') \<Longrightarrow> off' = off + 1"
  "i16_write a16 b off = Inr (b', off') \<Longrightarrow> off' = off + 2"
  "i16_read b off = Inr (a16, off') \<Longrightarrow> off' = off + 2"
  "i32_write a32 b off = Inr (b', off') \<Longrightarrow> off' = off + 4"
  "i32_read b off = Inr (a32, off') \<Longrightarrow> off' = off + 4"
  "i64_write a64 b off = Inr (b', off') \<Longrightarrow> off' = off + 8"
  "i64_read b off = Inr (a64, off') \<Longrightarrow> off' = off + 8"
  "u8_write c8 b off = Inr (b', off') \<Longrightarrow> off' = off + 1"
  "u8_read b off = Inr (c8, off') \<Longrightarrow> off' = off + 1"
  by (simp_all add: i8_write_Inr i8_read_Inr i16_write_Inr i16_read_Inr i32_write_Inr
      i32_read_Inr i64_write_Inr i64_read_Inr u8_write_Inr u8_read_Inr)

lemma static_sizes_signed_and_u8:
  "i8_staticSize = 1" "i8_serializedSize a8 = 1"
  "i16_staticSize = 2" "i16_serializedSize a16 = 2"
  "i32_staticSize = 4" "i32_serializedSize a32 = 4"
  "i64_staticSize = 8" "i64_serializedSize a64 = 8"
  "u8_staticSize = 1" "u8_serializedSize c8 = 1"
  by (simp_all add: i8_staticSize_def i8_serializedSize_def i16_staticSize_def
      i16_serializedSize_def i32_staticSize_def i32_serializedSize_def i64_staticSize_def
      i64_serializedSize_def u8_staticSize_def u8_serializedSize_def)

text \<open>
  For \<open>u16\<close>, \<open>u32\<close> and \<open>u64\<close> every successful call moves the cursor by 1, and
  both size methods return 1, while the call writes or reads 2, 4 or 8 bytes.
\<close>

lemma cursor_step_wide_unsigned:
  "u16_write c16 b off = Inr (b', off') \<Longrightarrow>
     off' = off + 1 \<and> b' = take off b @ le_bytes 2 (truncate_number (u16_value c16)) @ drop (off + 2) b"
  "u16_read b off = Inr (c16, off') \<Longrightarrow>
     off' = off + 1 \<and> u16_value c16 = Finite (of_int (le_value (take 2 (drop off b))))"
  "u32_write c32 b off = Inr (b', off') \<Longrightarrow>
     off' = off + 1 \<and> b' = take off b @ le_bytes 4 (truncate_number (u32_value c32)) @ drop (off + 4) b"
  "u32_read b off = Inr (c32, off') \<Longrightarrow>
     off' = off + 1 \<and> u32_value c32 = Finite (of_int (le_value (take 4 (drop off b))))"
  "u64_write c64 b off = Inr (b', off') \<Longrightarrow>
     off' = off + 1 \<and> b' = take off b @ le_bytes 8 (u64_value c64) @ drop (off + 8) b"
  "u64_read b off = Inr (c64, off') \<Longrightarrow>
     off' = off + 1 \<and> u64_value c64 = le_value (take 8 (drop off b))"
  by (simp_all add: u16_write_Inr u16_read_Inr u32_write_Inr u32_read_Inr u64_write_Inr
      u64_read_Inr)

lemma static_sizes_wide_unsigned:
  "u16_staticSize = 1" "u16_serializedSize c16 = 1"
  "u32_staticSize = 1" "u32_serializedSize c32 = 1"
  "u64_staticSize = 1" "u64_serializedSize c64 = 1"
  by (simp_all add: u16_staticSize_def u16_serializedSize_def u32_staticSize_def
      u32_serializedSize_def u64_staticSize_def u64_serializedSize_def)

text \<open>
  Claim C1. After every successful \<open>write\<close> or \<open>read\<close> of a bounded numeric class the
  cursor is the cursor before plus the byte width of the class (1, 2, 4 or 8), which is
  the number of bytes the call wrote or read. At the inputs below the code does
  otherwise: \<open>u16.write\<close> stores two bytes, \<open>u32.read\<close> decodes four and
  \<open>u64.write\<close> stores eight, and each leaves the cursor at 1.
\<close>

theorem wide_unsigned_cursor_step:
  "u16_write (U16 (Finite 258)) [0, 0, 0, 0] 0 = Inr ([2, 1, 0, 0], 1) \<and>
   u32_read [4, 3, 2, 1, 0] 0 = Inr (U32 (Finite 16909060), 1) \<and>
   u64_write (U64 72623859790382856) [0, 0, 0, 0, 0, 0, 0, 0, 0] 0 =
     Inr ([8, 7, 6, 5, 4, 3, 2, 1, 0], 1)"
  by code_simp

text \<open>
  Claim C2. \<open>serializedSize\<close> and \<open>staticSize\<close> return the number of bytes a value
  occupies when written: 2 for \<open>u16\<close>, 4 for \<open>u32\<close>, 8 for \<open>u64\<close>. At the inputs
  below the code returns 1 for all three, next to writes that fill 2, 4 and 8 bytes.
\<close>

theorem wide_unsigned_sizes:
  "u16_staticSize = 1 \<and> u16_serializedSize (U16 (Finite 65535)) = 1 \<and>
   u16_write (U16 (Finite 65535)) [0, 0, 0] 0 = Inr ([255, 255, 0], 1) \<and>
   u32_staticSize = 1 \<and> u32_serializedSize (U32 (Finite 4294967295)) = 1 \<and>
   u32_write (U32 (Finite 4294967295)) [0, 0, 0, 0, 0] 0 = Inr ([255, 255, 255, 255, 0], 1) \<and>
   u64_staticSize = 1 \<and> u64_serializedSize (U64 18446744073709551615) = 1 \<and>
   u64_write (U64 18446744073709551615) [0, 0, 0, 0, 0, 0, 0, 0, 0] 0 =
     Inr ([255, 255, 255, 255, 255, 255, 255, 255, 0], 1)"
  by code_simp

section \<open>Range enforcement by the constructors\<close>

lemma show_int_bounds:
  "show_int (- 128) = ''-128''" "show_int 127 = ''127''"
  "show_int (- 32768) = ''-32768''" "show_int 32767 = ''32767''"
  "show_int (- 2147483648) = ''-2147483648''" "show_int 2147483647 = ''2147483647''"
  "show_int (- 9223372036854775808) = ''-9223372036854775808''"
  "show_int 9223372036854775807 = ''9223372036854775807''"
  "show_int 0 = ''0''" "show_int 255 = ''255''" "show_int 65535 = ''65535''"
  "show_int 4294967295 = ''4294967295''"
  "show_int 18446744073709551615 = ''18446744073709551615''"
  by code_simp+

lemma Number_toString_bounds:
  "Number_toString (Finite (- 128)) = Some ''-128''" "Number_toString (Finite 127) = Some ''127''"
  "Number_toString (Finite (- 32768)) = Some ''-32768''"
  "Number_toString (Finite 32767) = Some ''32767''"
  "Number_toString (Finite (- 2147483648)) = Some ''-2147483648''"
  "Number_toString (Finite 2147483647) = Some ''2147483647''"
  "Number_toString (Finite 0) = Some ''0''" "Number_toString (Finite 255) = Some ''255''"
  "Number_toString (Finite 65535) = Some ''65535''"
  "Number_toString (Finite 4294967295) = Some ''4294967295''"
  by (simp_all add: is_safe_integer_def show_int_bounds)

text \<open>
  The value a \<open>read\<close> decodes is always inside the bounds of its class, so on that
  path the constructor's check always passes: a \<open>read\<close> throws only what the buffer
  access throws.
\<close>

lemma i8_read_error:
  "i8_read buffer offset = Inl e \<longleftrightarrow>
     length buffer < offset + 1 \<and> e = bounds_error 1 buffer"
proof (cases "i8_read buffer offset")
  case (Inl e')
  have "\<not> offset + 1 \<le> length buffer"
  proof
    assume "offset + 1 \<le> length buffer"
    then have "\<exists>x offset'. i8_read buffer offset = Inr (x, offset')"
      by (simp add: i8_read_Inr)
    with Inl show False by simp
  qed
  then have short: "length buffer < offset + 1"
    by simp
  then have "buffer_read 1 buffer offset = Inl (bounds_error 1 buffer)"
    by (simp add: buffer_read_def)
  then have "i8_read buffer offset = Inl (bounds_error 1 buffer)"
    by (simp add: i8_read_def readInt8_def buffer_read_signed_def as_number_def)
  with Inl short show ?thesis by auto
next
  case (Inr r)
  obtain x offset' where "r = (x, offset')"
    by (cases r)
  with Inr have "offset + 1 \<le> length buffer"
    by (simp add: i8_read_Inr)
  with Inr show ?thesis by simp
qed

lemma i8_range_check:
  "js_less v (Finite (- 128)) \<or> js_less (Finite 127) v \<Longrightarrow>
     i8_new v = Inl (Error [Num v, Text '' is not in range '',
        Num (Finite (- 128)), Text ''..'', Num (Finite 127)])"
  "Number_toString v = Some s \<Longrightarrow>
     template_toString [Num v, Text '' is not in range '',
        Num (Finite (- 128)), Text ''..'', Num (Finite 127)] =
       Some (s @ '' is not in range -128..127'')"
  "i8_new (Finite (- 128)) = Inr (I8 (Finite (- 128)))"
  "i8_new (Finite 127) = Inr (I8 (Finite 127))"
  "i8_read buffer offset = Inr (x, offset') \<Longrightarrow>
     \<exists>raw. readInt8 buffer offset = Inr raw \<and> i8_new raw = Inr x"
  "i8_read buffer offset = Inr (x, offset') \<Longrightarrow> \<not> js_less (i8_value x) (Finite (- 128))"
  "i8_read buffer offset = Inr (x, offset') \<Longrightarrow> \<not> js_less (Finite 127) (i8_value x)"
proof -
  show "i8_new v = Inl (Error [Num v, Text '' is not in range '',
        Num (Finite (- 128)), Text ''..'', Num (Finite 127)])"
    if "js_less v (Finite (- 128)) \<or> js_less (Finite 127) v"
    using that by (simp add: i8_new_Inl)
  show "template_toString [Num v, Text '' is not in range '',
        Num (Finite (- 128)), Text ''..'', Num (Finite 127)] =
      Some (s @ '' is not in range -128..127'')"
    if "Number_toString v = Some s"
    using that by (simp add: Number_toString_bounds del: Number_toString.simps)
  show "i8_new (Finite (- 128)) = Inr (I8 (Finite (- 128)))" and "i8_new (Finite 127) = Inr (I8 (Finite 127))"
    by (simp_all add: i8_new_Inr)
  show "\<exists>raw. readInt8 buffer offset = Inr raw \<and> i8_new raw = Inr x"
    and "\<not> js_less (i8_value x) (Finite (- 128))" and "\<not> js_less (Finite 127) (i8_value x)"
    if "i8_read buffer offset = Inr (x, offset')"
    using that unfolding i8_read_def by (auto split: sum.splits simp: i8_new_Inr)
qed

lemma i16_read_error:
  "i16_read buffer offset = Inl e \<longleftrightarrow>
     length buffer < offset + 2 \<and> e = bounds_error 2 buffer"
proof (cases "i16_read buffer offset")
  case (Inl e')
  have "\<not> offset + 2 \<le> length buffer"
  proof
    assume "offset + 2 \<le> length buffer"
    then have "\<exists>x offset'. i16_read buffer offset = Inr (x, offset')"
      by (simp add: i16_read_Inr)
    with Inl show False by simp
  qed
  then have short: "length buffer < offset + 2"
    by simp
  then have "buffer_read 2 buffer offset = Inl (bounds_error 2 buffer)"
    by (simp add: buffer_read_def)
  then have "i16_read buffer offset = Inl (bounds_error 2 buffer)"
    by (simp add: i16_read_def readInt16LE_def buffer_read_signed_def as_number_def)
  with Inl short show ?thesis by auto
next
  case (Inr r)
  obtain x offset' where "r = (x, offset')"
    by (cases r)
  with Inr have "offset + 2 \<le> length buffer"
    by (simp add: i16_read_Inr)
  with Inr show ?thesis by simp
qed

lemma i16_range_check:
  "js_less v (Finite (- 32768)) \<or> js_less (Finite 32767) v \<Longrightarrow>
     i16_new v = Inl (Error [Num v, Text '' is not in range '',
        Num (Finite (- 32768)), Text ''..'', Num (Finite 32767)])"
  "Number_toString v = Some s \<Longrightarrow>
     template_toString [Num v, Text '' is not in range '',
        Num (Finite (- 32768)), Text ''..'', Num (Finite 32767)] =
       Some (s @ '' is not in range -32768..32767'')"
  "i16_new (Finite (- 32768)) = Inr (I16 (Finite (- 32768)))"
  "i16_new (Finite 32767) = Inr (I16 (Finite 32767))"
  "i16_read buffer offset = Inr (x, offset') \<Longrightarrow>
     \<exists>raw. readInt16LE buffer offset = Inr raw \<and> i16_new raw = Inr x"
  "i16_read buffer offset = Inr (x, offset') \<Longrightarrow> \<not> js_less (i16_value x) (Finite (- 32768))"
  "i16_read buffer offset = Inr (x, offset') \<Longrightarrow> \<not> js_less (Finite 32767) (i16_value x)"
proof -
  show "i16_new v = Inl (Error [Num v, Text '' is not in range '',
        Num (Finite (- 32768)), Text ''..'', Num (Finite 32767)])"
    if "js_less v (Finite (- 32768)) \<or> js_less (Finite 32767) v"
    using that by (simp add: i16_new_Inl)
  show "template_toString [Num v, Text '' is not in range '',
        Num (Finite (- 32768)), Text ''..'', Num (Finite 32767)] =
      Some (s @ '' is not in range -32768..32767'')"
    if "Number_toString v = Some s"
    using that by (simp add: Number_toString_bounds del: Number_toString.simps)
  show "i16_new (Finite (- 32768)) = Inr (I16 (Finite (- 32768)))" and "i16_new (Finite 32767) = Inr (I16 (Finite 32767))"
    by (simp_all add: i16_new_Inr)
  show "\<exists>raw. readInt16LE buffer offset = Inr raw \<and> i16_new raw = Inr x"
    and "\<not> js_less (i16_value x) (Finite (- 32768))" and "\<not> js_less (Finite 32767) (i16_value x)"
    if "i16_read buffer offset = Inr (x, offset')"
    using that unfolding i16_read_def by (auto split: sum.splits simp: i16_new_Inr)
qed

lemma i32_read_error:
  "i32_read buffer offset = Inl e \<longleftrightarrow>
     length buffer < offset + 4 \<and> e = bounds_error 4 buffer"
proof (cases "i32_read buffer offset")
  case (Inl e')
  have "\<not> offset + 4 \<le> length buffer"
  proof
    assume "offset + 4 \<le> length buffer"
    then have "\<exists>x offset'. i32_read buffer offset = Inr (x, offset')"
      by (simp add: i32_read_Inr)
    with Inl show False by simp
  qed
  then have short: "length buffer < offset + 4"
    by simp
  then have "buffer_read 4 buffer offset = Inl (bounds_error 4 buffer)"
    by (simp add: buffer_read_def)
  then have "i32_read buffer offset = Inl (bounds_error 4 buffer)"
    by (simp add: i32_read_def readInt32LE_def buffer_read_signed_def as_number_def)
  with Inl short show ?thesis by auto
next
  case (Inr r)
  obtain x offset' where "r = (x, offset')"
    by (cases r)
  with Inr have "offset + 4 \<le> length buffer"
    by (simp add: i32_read_Inr)
  with Inr show ?thesis by simp
qed

lemma i32_range_check:
  "js_less v (Finite (- 2147483648)) \<or> js_less (Finite 2147483647) v \<Longrightarrow>
     i32_new v = Inl (Error [Num v, Text '' is not in range '',
        Num (Finite (- 2147483648)), Text ''..'', Num (Finite 2147483647)])"
  "Number_toString v = Some s \<Longrightarrow>
     template_toString [Num v, Text '' is not in range '',
        Num (Finite (- 2147483648)), Text ''..'', Num (Finite 2147483647)] =
       Some (s @ '' is not in range -2147483648..2147483647'')"
  "i32_new (Finite (- 2147483648)) = Inr (I32 (Finite (- 2147483648)))"
  "i32_new (Finite 2147483647) = Inr (I32 (Finite 2147483647))"
  "i32_read buffer offset = Inr (x, offset') \<Longrightarrow>
     \<exists>raw. readInt32LE buffer offset = Inr raw \<and> i32_new raw = Inr x"
  "i32_read buffer offset = Inr (x, offset') \<Longrightarrow> \<not> js_less (i32_value x) (Finite (- 2147483648))"
  "i32_read buffer offset = Inr (x, offset') \<Longrightarrow> \<not> js_less (Finite 2147483647) (i32_value x)"
proof -
  show "i32_new v = Inl (Error [Num v, Text '' is not in range '',
        Num (Finite (- 2147483648)), Text ''..'', Num (Finite 2147483647)])"
    if "js_less v (Finite (- 2147483648)) \<or> js_less (Finite 2147483647) v"
    using that by (simp add: i32_new_Inl)
  show "template_toString [Num v, Text '' is not in range '',
        Num (Finite (- 2147483648)), Text ''..'', Num (Finite 2147483647)] =
      Some (s @ '' is not in range -2147483648..2147483647'')"
    if "Number_toString v = Some s"
    using that by (simp add: Number_toString_bounds del: Number_toString.simps)
  show "i32_new (Finite (- 2147483648)) = Inr (I32 (Finite (- 2147483648)))" and "i32_new (Finite 2147483647) = Inr (I32 (Finite 2147483647))"
    by (simp_all add: i32_new_Inr)
  show "\<exists>raw. readInt32LE buffer offset = Inr raw \<and> i32_new raw = Inr x"
    and "\<not> js_less (i32_value x) (Finite (- 2147483648))" and "\<not> js_less (Finite 2147483647) (i32_value x)"
    if "i32_read buffer offset = Inr (x, offset')"
    using that unfolding i32_read_def by (auto split: sum.splits simp: i32_new_Inr)
qed

lemma i64_read_error:
  "i64_read buffer offset = Inl e \<longleftrightarrow>
     length buffer < offset + 8 \<and> e = bounds_error 8 buffer"
proof (cases "i64_read buffer offset")
  case (Inl e')
  have "\<not> offset + 8 \<le> length buffer"
  proof
    assume "offset + 8 \<le> length buffer"
    then have "\<exists>x offset'. i64_read buffer offset = Inr (x, offset')"
      by (simp add: i64_read_Inr)
    with Inl show False by simp
  qed
  then have short: "length buffer < offset + 8"
    by simp
  then have "buffer_read 8 buffer offset = Inl (bounds_error 8 buffer)"
    by (simp add: buffer_read_def)
  then have "i64_read buffer offset = Inl (bounds_error 8 buffer)"
    by (simp add: i64_read_def readBigInt64LE_def buffer_read_signed_def)
  with Inl short show ?thesis by auto
next
  case (Inr r)
  obtain x offset' where "r = (x, offset')"
    by (cases r)
  with Inr have "offset + 8 \<le> length buffer"
    by (simp add: i64_read_Inr)
  with Inr show ?thesis by simp
qed

lemma i64_range_check:
  "v < - 9223372036854775808 \<or> 9223372036854775807 < v \<Longrightarrow>
     i64_new v = Inl (Error [Big v, Text '' is not in range '',
        Big (- 9223372036854775808), Text ''..'', Big 9223372036854775807])"
  "template_toString [Big v, Text '' is not in range '',
        Big (- 9223372036854775808), Text ''..'', Big 9223372036854775807] =
       Some (show_int v @ '' is not in range -9223372036854775808..9223372036854775807'')"
  "i64_new (- 9223372036854775808) = Inr (I64 (- 9223372036854775808))"
  "i64_new 9223372036854775807 = Inr (I64 9223372036854775807)"
  "i64_read buffer offset = Inr (x, offset') \<Longrightarrow>
     \<exists>raw. readBigInt64LE buffer offset = Inr raw \<and> i64_new raw = Inr x"
  "i64_read buffer offset = Inr (x, offset') \<Longrightarrow> - 9223372036854775808 \<le> i64_value x"
  "i64_read buffer offset = Inr (x, offset') \<Longrightarrow> i64_value x \<le> 9223372036854775807"
proof -
  show "i64_new v = Inl (Error [Big v, Text '' is not in range '',
        Big (- 9223372036854775808), Text ''..'', Big 9223372036854775807])"
    if "v < - 9223372036854775808 \<or> 9223372036854775807 < v"
    using that by (simp add: i64_new_Inl)
  show "template_toString [Big v, Text '' is not in range '',
        Big (- 9223372036854775808), Text ''..'', Big 9223372036854775807] =
      Some (show_int v @ '' is not in range -9223372036854775808..9223372036854775807'')"
    by (simp add: show_int_bounds)
  show "i64_new (- 9223372036854775808) = Inr (I64 (- 9223372036854775808))" and "i64_new 9223372036854775807 = Inr (I64 9223372036854775807)"
    by (simp_all add: i64_new_Inr)
  show "\<exists>raw. readBigInt64LE buffer offset = Inr raw \<and> i64_new raw = Inr x"
    and "- 9223372036854775808 \<le> i64_value x" and "i64_value x \<le> 9223372036854775807"
    if "i64_read buffer offset = Inr (x, offset')"
    using that unfolding i64_read_def by (auto split: sum.splits simp: i64_new_Inr)
qed

lemma u8_read_error:
  "u8_read buffer offset = Inl e \<longleftrightarrow>
     length buffer < offset + 1 \<and> e = bounds_error 1 buffer"
proof (cases "u8_read buffer offset")
  case (Inl e')
  have "\<not> offset + 1 \<le> length buffer"
  proof
    assume "offset + 1 \<le> length buffer"
    then have "\<exists>x offset'. u8_read buffer offset = Inr (x, offset')"
      by (simp add: u8_read_Inr)
    with Inl show False by simp
  qed
  then have short: "length buffer < offset + 1"
    by simp
  then have "buffer_read 1 buffer offset = Inl (bounds_error 1 buffer)"
    by (simp add: buffer_read_def)
  then have "u8_read buffer offset = Inl (bounds_error 1 buffer)"
    by (simp add: u8_read_def readUInt8_def as_number_def)
  with Inl short show ?thesis by auto
next
  case (Inr r)
  obtain x offset' where "r = (x, offset')"
    by (cases r)
  with Inr have "offset + 1 \<le> length buffer"
    by (simp add: u8_read_Inr)
  with Inr show ?thesis by simp
qed

lemma u8_range_check:
  "js_less v (Finite 0) \<or> js_less (Finite 255) v \<Longrightarrow>
     u8_new v = Inl (Error [Num v, Text '' is not in range '',
        Num (Finite 0), Text ''..'', Num (Finite 255)])"
  "Number_toString v = Some s \<Longrightarrow>
     template_toString [Num v, Text '' is not in range '',
        Num (Finite 0), Text ''..'', Num (Finite 255)] =
       Some (s @ '' is not in range 0..255'')"
  "u8_new (Finite 0) = Inr (U8 (Finite 0))"
  "u8_new (Finite 255) = Inr (U8 (Finite 255))"
  "u8_read buffer offset = Inr (x, offset') \<Longrightarrow>
     \<exists>raw. readUInt8 buffer offset = Inr raw \<and> u8_new raw = Inr x"
  "u8_read buffer offset = Inr (x, offset') \<Longrightarrow> \<not> js_less (u8_value x) (Finite 0)"
  "u8_read buffer offset = Inr (x, offset') \<Longrightarrow> \<not> js_less (Finite 255) (u8_value x)"
proof -
  show "u8_new v = Inl (Error [Num v, Text '' is not in range '',
        Num (Finite 0), Text ''..'', Num (Finite 255)])"
    if "js_less v (Finite 0) \<or> js_less (Finite 255) v"
    using that by (simp add: u8_new_Inl)
  show "template_toString [Num v, Text '' is not in range '',
        Num (Finite 0), Text ''..'', Num (Finite 255)] =
      Some (s @ '' is not in range 0..255'')"
    if "Number_toString v = Some s"
    using that by (simp add: Number_toString_bounds del: Number_toString.simps)
  show "u8_new (Finite 0) = Inr (U8 (Finite 0))" and "u8_new (Finite 255) = Inr (U8 (Finite 255))"
    by (simp_all add: u8_new_Inr)
  show "\<exists>raw. readUInt8 buffer offset = Inr raw \<and> u8_new raw = Inr x"
    and "\<not> js_less (u8_value x) (Finite 0)" and "\<not> js_less (Finite 255) (u8_value x)"
    if "u8_read buffer offset = Inr (x, offset')"
    using that unfolding u8_read_def by (auto split: sum.splits simp: u8_new_Inr)
qed

lemma u16_read_error:
  "u16_read buffer offset = Inl e \<longleftrightarrow>
     length buffer < offset + 2 \<and> e = bounds_error 2 buffer"
proof (cases "u16_read buffer offset")
  case (Inl e')
  have "\<not> offset + 2 \<le> length buffer"
  proof
    assume "offset + 2 \<le> length buffer"
    then have "\<exists>x offset'. u16_read buffer offset = Inr (x, offset')"
      by (simp add: u16_read_Inr)
    with Inl show False by simp
  qed
  then have short: "length buffer < offset + 2"
    by simp
  then have "buffer_read 2 buffer offset = Inl (bounds_error 2 buffer)"
    by (simp add: buffer_read_def)
  then have "u16_read buffer offset = Inl (bounds_error 2 buffer)"
    by (simp add: u16_read_def readUInt16LE_def as_number_def)
  with Inl short show ?thesis by auto
next
  case (Inr r)
  obtain x offset' where "r = (x, offset')"
    by (cases r)
  with Inr have "offset + 2 \<le> length buffer"
    by (simp add: u16_read_Inr)
  with Inr show ?thesis by simp
qed

lemma u16_range_check:
  "js_less v (Finite 0) \<or> js_less (Finite 65535) v \<Longrightarrow>
     u16_new v = Inl (Error [Num v, Text '' is not in range '',
        Num (Finite 0), Text ''..'', Num (Finite 65535)])"
  "Number_toString v = Some s \<Longrightarrow>
     template_toString [Num v, Text '' is not in range '',
        Num (Finite 0), Text ''..'', Num (Finite 65535)] =
       Some (s @ '' is not in range 0..65535'')"
  "u16_new (Finite 0) = Inr (U16 (Finite 0))"
  "u16_new (Finite 65535) = Inr (U16 (Finite 65535))"
  "u16_read buffer offset = Inr (x, offset') \<Longrightarrow>
     \<exists>raw. readUInt16LE buffer offset = Inr raw \<and> u16_new raw = Inr x"
  "u16_read buffer offset = Inr (x, offset') \<Longrightarrow> \<not> js_less (u16_value x) (Finite 0)"
  "u16_read buffer offset = Inr (x, offset') \<Longrightarrow> \<not> js_less (Finite 65535) (u16_value x)"
proof -
  show "u16_new v = Inl (Error [Num v, Text '' is not in range '',
        Num (Finite 0), Text ''..'', Num (Finite 65535)])"
    if "js_less v (Finite 0) \<or> js_less (Finite 65535) v"
    using that by (simp add: u16_new_Inl)
  show "template_toString [Num v, Text '' is not in range '',
        Num (Finite 0), Text ''..'', Num (Finite 65535)] =
      Some (s @ '' is not in range 0..65535'')"
    if "Number_toString v = Some s"
    using that by (simp add: Number_toString_bounds del: Number_toString.simps)
  show "u16_new (Finite 0) = Inr (U16 (Finite 0))" and "u16_new (Finite 65535) = Inr (U16 (Finite 65535))"
    by (simp_all add: u16_new_Inr)
  show "\<exists>raw. readUInt16LE buffer offset = Inr raw \<and> u16_new raw = Inr x"
    and "\<not> js_less (u16_value x) (Finite 0)" and "\<not> js_less (Finite 65535) (u16_value x)"
    if "u16_read buffer offset = Inr (x, offset')"
    using that unfolding u16_read_def by (auto split: sum.splits simp: u16_new_Inr)
qed

lemma u32_read_error:
  "u32_read buffer offset = Inl e \<longleftrightarrow>
     length buffer < offset + 4 \<and> e = bounds_error 4 buffer"
proof (cases "u32_read buffer offset")
  case (Inl e')
  have "\<not> offset + 4 \<le> length buffer"
  proof
    assume "offset + 4 \<le> length buffer"
    then have "\<exists>x offset'. u32_read buffer offset = Inr (x, offset')"
      by (simp add: u32_read_Inr)
    with Inl show False by simp
  qed
  then have short: "length buffer < offset + 4"
    by simp
  then have "buffer_read 4 buffer offset = Inl (bounds_error 4 buffer)"
    by (simp add: buffer_read_def)
  then have "u32_read buffer offset = Inl (bounds_error 4 buffer)"
    by (simp add: u32_read_def readUint32LE_def as_number_def)
  with Inl short show ?thesis by auto
next
  case (Inr r)
  obtain x offset' where "r = (x, offset')"
    by (cases r)
  with Inr have "offset + 4 \<le> length buffer"
    by (simp add: u32_read_Inr)
  with Inr show ?thesis by simp
qed

lemma u32_range_check:
  "js_less v (Finite 0) \<or> js_less (Finite 4294967295) v \<Longrightarrow>
     u32_new v = Inl (Error [Num v, Text '' is not in range '',
        Num (Finite 0), Text ''..'', Num (Finite 4294967295)])"
  "Number_toString v = Some s \<Longrightarrow>
     template_toString [Num v, Text '' is not in range '',
        Num (Finite 0), Text ''..'', Num (Finite 4294967295)] =
       Some (s @ '' is not in range 0..4294967295'')"
  "u32_new (Finite 0) = Inr (U32 (Finite 0))"
  "u32_new (Finite 4294967295) = Inr (U32 (Finite 4294967295))"
  "u32_read buffer offset = Inr (x, offset') \<Longrightarrow>
     \<exists>raw. readUint32LE buffer offset = Inr raw \<and> u32_new raw = Inr x"
  "u32_read buffer offset = Inr (x, offset') \<Longrightarrow> \<not> js_less (u32_value x) (Finite 0)"
  "u32_read buffer offset = Inr (x, offset') \<Longrightarrow> \<not> js_less (Finite 4294967295) (u32_value x)"
proof -
  show "u32_new v = Inl (Error [Num v, Text '' is not in range '',
        Num (Finite 0), Text ''..'', Num (Finite 4294967295)])"
    if "js_less v (Finite 0) \<or> js_less (Finite 4294967295) v"
    using that by (simp add: u32_new_Inl)
  show "template_toString [Num v, Text '' is not in range '',
        Num (Finite 0), Text ''..'', Num (Finite 4294967295)] =
      Some (s @ '' is not in range 0..4294967295'')"
    if "Number_toString v = Some s"
    using that by (simp add: Number_toString_bounds del: Number_toString.simps)
  show "u32_new (Finite 0) = Inr (U32 (Finite 0))" and "u32_new (Finite 4294967295) = Inr (U32 (Finite 4294967295))"
    by (simp_all add: u32_new_Inr)
  show "\<exists>raw. readUint32LE buffer offset = Inr raw \<and> u32_new raw = Inr x"
    and "\<not> js_less (u32_value x) (Finite 0)" and "\<not> js_less (Finite 4294967295) (u32_value x)"
    if "u32_read buffer offset = Inr (x, offset')"
    using that unfolding u32_read_def by (auto split: sum.splits simp: u32_new_Inr)
qed

lemma u64_read_error:
  "u64_read buffer offset = Inl e \<longleftrightarrow>
     length buffer < offset + 8 \<and> e = bounds_error 8 buffer"
proof (cases "u64_read buffer offset")
  case (Inl e')
  have "\<not> offset + 8 \<le> length buffer"
  proof
    assume "offset + 8 \<le> length buffer"
    then have "\<exists>x offset'. u64_read buffer offset = Inr (x, offset')"
      by (simp add: u64_read_Inr)
    with Inl show False by simp
  qed
  then have short: "length buffer < offset + 8"
    by simp
  then have "buffer_read 8 buffer offset = Inl (bounds_error 8 buffer)"
    by (simp add: buffer_read_def)
  then have "u64_read buffer offset = Inl (bounds_error 8 buffer)"
    by (simp add: u64_read_def readBigUInt64LE_def)
  with Inl short show ?thesis by auto
next
  case (Inr r)
  obtain x offset' where "r = (x, offset')"
    by (cases r)
  with Inr have "offset + 8 \<le> length buffer"
    by (simp add: u64_read_Inr)
  with Inr show ?thesis by simp
qed

lemma u64_range_check:
  "v < 0 \<or> 18446744073709551615 < v \<Longrightarrow>
     u64_new v = Inl (Error [Big v, Text '' is not in range '',
        Big 0, Text ''..'', Big 18446744073709551615])"
  "template_toString [Big v, Text '' is not in range '',
        Big 0, Text ''..'', Big 18446744073709551615] =
       Some (show_int v @ '' is not in range 0..18446744073709551615'')"
  "u64_new 0 = Inr (U64 0)"
  "u64_new 18446744073709551615 = Inr (U64 18446744073709551615)"
  "u64_read buffer offset = Inr (x, offset') \<Longrightarrow>
     \<exists>raw. readBigUInt64LE buffer offset = Inr raw \<and> u64_new raw = Inr x"
  "u64_read buffer offset = Inr (x, offset') \<Longrightarrow> 0 \<le> u64_value x"
  "u64_read buffer offset = Inr (x, offset') \<Longrightarrow> u64_value x \<le> 18446744073709551615"
proof -
  show "u64_new v = Inl (Error [Big v, Text '' is not in range '',
        Big 0, Text ''..'', Big 18446744073709551615])"
    if "v < 0 \<or> 18446744073709551615 < v"
    using that by (simp add: u64_new_Inl)
  show "template_toString [Big v, Text '' is not in range '',
        Big 0, Text ''..'', Big 18446744073709551615] =
      Some (show_int v @ '' is not in range 0..18446744073709551615'')"
    by (simp add: show_int_bounds)
  show "u64_new 0 = Inr (U64 0)" and "u64_new 18446744073709551615 = Inr (U64 18446744073709551615)"
    by (simp_all add: u64_new_Inr)
  show "\<exists>raw. readBigUInt64LE buffer offset = Inr raw \<and> u64_new raw = Inr x"
    and "0 \<le> u64_value x" and "u64_value x \<le> 18446744073709551615"
    if "u64_read buffer offset = Inr (x, offset')"
    using that unfolding u64_read_def by (auto split: sum.splits simp: u64_new_Inr)
qed

lemmas range_checks =
  i8_range_check i16_range_check i32_range_check i64_range_check
  u8_range_check u16_range_check u32_range_check u64_range_check

text \<open>
  The spec's scenario for \<open>u8\<close>: 256 is refused with its message, 255 is accepted
  and is written as the single byte FF; a fraction above the maximum is refused too.
\<close>

lemma u8_scenario:
  "u8_new (Finite 256) =
     Inl (Error [Num (Finite 256), Text '' is not in range '',
                 Num (Finite 0), Text ''..'', Num (Finite 255)])"
  "template_toString [Num (Finite 256), Text '' is not in range '',
     Num (Finite 0), Text ''..'', Num (Finite 255)] = Some ''256 is not in range 0..255''"
  "u8_new (Finite 255) = Inr (U8 (Finite 255))"
  "u8_write (U8 (Finite 255)) [0] 0 = Inr ([255], 1)"
  "u8_new (Finite (511 / 2)) =
     Inl (Error [Num (Finite (511 / 2)), Text '' is not in range '',
                 Num (Finite 0), Text ''..'', Num (Finite 255)])"
  by code_simp+

text \<open>
  Claim C4. For each of the eight bounded numeric classes: constructing from a raw value
  below the minimum or above the maximum of the class throws an \<open>Error\<close> whose message
  is the template with the offending value, the minimum and the maximum, which reads
  as the value followed by the valid range wherever the rendering of the value is
  known; constructing from exactly the minimum and from exactly the maximum succeeds;
  and every instance that \<open>read\<close> returns is what the same constructor returned for
  the raw value decoded from the buffer, and lies inside the bounds. The raw value
  \<open>v\<close> is any \<^verbatim>\<open>number\<close> (fractions and infinities included) and \<open>n\<close> any
  \<^verbatim>\<open>bigint\<close>, whose rendering is always known.
\<close>

theorem constructor_range_check:
  "(js_less v (Finite (- 128)) \<or> js_less (Finite 127) v \<longrightarrow>
      i8_new v = Inl (Error [Num v, Text '' is not in range '',
        Num (Finite (- 128)), Text ''..'', Num (Finite 127)])) \<and>
   (\<forall>s. Number_toString v = Some s \<longrightarrow>
      template_toString [Num v, Text '' is not in range '',
        Num (Finite (- 128)), Text ''..'', Num (Finite 127)] =
        Some (s @ '' is not in range -128..127'')) \<and>
   i8_new (Finite (- 128)) = Inr (I8 (Finite (- 128))) \<and>
   i8_new (Finite 127) = Inr (I8 (Finite 127)) \<and>
   (\<forall>x offset'. i8_read buffer offset = Inr (x, offset') \<longrightarrow>
      (\<exists>raw. readInt8 buffer offset = Inr raw \<and> i8_new raw = Inr x) \<and>
      \<not> js_less (i8_value x) (Finite (- 128)) \<and> \<not> js_less (Finite 127) (i8_value x)) \<and>
   (js_less v (Finite (- 32768)) \<or> js_less (Finite 32767) v \<longrightarrow>
      i16_new v = Inl (Error [Num v, Text '' is not in range '',
        Num (Finite (- 32768)), Text ''..'', Num (Finite 32767)])) \<and>
   (\<forall>s. Number_toString v = Some s \<longrightarrow>
      template_toString [Num v, Text '' is not in range '',
        Num (Finite (- 32768)), Text ''..'', Num (Finite 32767)] =
        Some (s @ '' is not in range -32768..32767'')) \<and>
   i16_new (Finite (- 32768)) = Inr (I16 (Finite (- 32768))) \<and>
   i16_new (Finite 32767) = Inr (I16 (Finite 32767)) \<and>
   (\<forall>x offset'. i16_read buffer offset = Inr (x, offset') \<longrightarrow>
      (\<exists>raw. readInt16LE buffer offset = Inr raw \<and> i16_new raw = Inr x) \<and>
      \<not> js_less (i16_value x) (Finite (- 32768)) \<and> \<not> js_less (Finite 32767) (i16_value x)) \<and>
   (js_less v (Finite (- 2147483648)) \<or> js_less (Finite 2147483647) v \<longrightarrow>
      i32_new v = Inl (Error [Num v, Text '' is not in range '',
        Num (Finite (- 2147483648)), Text ''..'', Num (Finite 2147483647)])) \<and>
   (\<forall>s. Number_toString v = Some s \<longrightarrow>
      template_toString [Num v, Text '' is not in range '',
        Num (Finite (- 2147483648)), Text ''..'', Num (Finite 2147483647)] =
        Some (s @ '' is not in range -2147483648..2147483647'')) \<and>
   i32_new (Finite (- 2147483648)) = Inr (I32 (Finite (- 2147483648))) \<and>
   i32_new (Finite 2147483647) = Inr (I32 (Finite 2147483647)) \<and>
   (\<forall>x offset'. i32_read buffer offset = Inr (x, offset') \<longrightarrow>
      (\<exists>raw. readInt32LE buffer offset = Inr raw \<and> i32_new raw = Inr x) \<and>
      \<not> js_less (i32_value x) (Finite (- 2147483648)) \<and> \<not> js_less (Finite 2147483647) (i32_value x)) \<and>
   (n < - 9223372036854775808 \<or> 9223372036854775807 < n \<longrightarrow>
      i64_new n = Inl (Error [Big n, Text '' is not in range '',
        Big (- 9223372036854775808), Text ''..'', Big 9223372036854775807])) \<and>
   template_toString [Big n, Text '' is not in range '',
      Big (- 9223372036854775808), Text ''..'', Big 9223372036854775807] =
     Some (show_int n @ '' is not in range -9223372036854775808..9223372036854775807'') \<and>
   i64_new (- 9223372036854775808) = Inr (I64 (- 9223372036854775808)) \<and>
   i64_new 9223372036854775807 = Inr (I64 9223372036854775807) \<and>
   (\<forall>x offset'. i64_read buffer offset = Inr (x, offset') \<longrightarrow>
      (\<exists>raw. readBigInt64LE buffer offset = Inr raw \<and> i64_new raw = Inr x) \<and>
      - 9223372036854775808 \<le> i64_value x \<and> i64_value x \<le> 9223372036854775807) \<and>
   (js_less v (Finite 0) \<or> js_less (Finite 255) v \<longrightarrow>
      u8_new v = Inl (Error [Num v, Text '' is not in range '',
        Num (Finite 0), Text ''..'', Num (Finite 255)])) \<and>
   (\<forall>s. Number_toString v = Some s \<longrightarrow>
      template_toString [Num v, Text '' is not in range '',
        Num (Finite 0), Text ''..'', Num (Finite 255)] =
        Some (s @ '' is not in range 0..255'')) \<and>
   u8_new (Finite 0) = Inr (U8 (Finite 0)) \<and>
   u8_new (Finite 255) = Inr (U8 (Finite 255)) \<and>
   (\<forall>x offset'. u8_read buffer offset = Inr (x, offset') \<longrightarrow>
      (\<exists>raw. readUInt8 buffer offset = Inr raw \<and> u8_new raw = Inr x) \<and>
      \<not> js_less (u8_value x) (Finite 0) \<and> \<not> js_less (Finite 255) (u8_value x)) \<and>
   (js_less v (Finite 0) \<or> js_less (Finite 65535) v \<longrightarrow>
      u16_new v = Inl (Error [Num v, Text '' is not in range '',
        Num (Finite 0), Text ''..'', Num (Finite 65535)])) \<and>
   (\<forall>s. Number_toString v = Some s \<longrightarrow>
      template_toString [Num v, Text '' is not in range '',
        Num (Finite 0), Text ''..'', Num (Finite 65535)] =
        Some (s @ '' is not in range 0..65535'')) \<and>
   u16_new (Finite 0) = Inr (U16 (Finite 0)) \<and>
   u16_new (Finite 65535) = Inr (U16 (Finite 65535)) \<and>
   (\<forall>x offset'. u16_read buffer offset = Inr (x, offset') \<longrightarrow>
      (\<exists>raw. readUInt16LE buffer offset = Inr raw \<and> u16_new raw = Inr x) \<and>
      \<not> js_less (u16_value x) (Finite 0) \<and> \<not> js_less (Finite 65535) (u16_value x)) \<and>
   (js_less v (Finite 0) \<or> js_less (Finite 4294967295) v \<longrightarrow>
      u32_new v = Inl (Error [Num v, Text '' is not in range '',
        Num (Finite 0), Text ''..'', Num (Finite 4294967295)])) \<and>
   (\<forall>s. Number_toString v = Some s \<longrightarrow>
      template_toString [Num v, Text '' is not in range '',
        Num (Finite 0), Text ''..'', Num (Finite 4294967295)] =
        Some (s @ '' is not in range 0..4294967295'')) \<and>
   u32_new (Finite 0) = Inr (U32 (Finite 0)) \<and>
   u32_new (Finite 4294967295) = Inr (U32 (Finite 4294967295)) \<and>
   (\<forall>x offset'. u32_read buffer offset = Inr (x, offset') \<longrightarrow>
      (\<exists>raw. readUint32LE buffer offset = Inr raw \<and> u32_new raw = Inr x) \<and>
      \<not> js_less (u32_value x) (Finite 0) \<and> \<not> js_less (Finite 4294967295) (u32_value x)) \<and>
   (n < 0 \<or> 18446744073709551615 < n \<longrightarrow>
      u64_new n = Inl (Error [Big n, Text '' is not in range '',
        Big 0, Text ''..'', Big 18446744073709551615])) \<and>
   template_toString [Big n, Text '' is not in range '',
      Big 0, Text ''..'', Big 18446744073709551615] =
     Some (show_int n @ '' is not in range 0..18446744073709551615'') \<and>
   u64_new 0 = Inr (U64 0) \<and>
   u64_new 18446744073709551615 = Inr (U64 18446744073709551615) \<and>
   (\<forall>x offset'. u64_read buffer offset = Inr (x, offset') \<longrightarrow>
      (\<exists>raw. readBigUInt64LE buffer offset = Inr raw \<and> u64_new raw = Inr x) \<and>
      0 \<le> u64_value x \<and> u64_value x \<le> 18446744073709551615)"
  by (intro conjI impI allI; (erule range_checks | rule range_checks))

theorem constructor_range_check_witness:
  "(js_less (Finite 4294967296) (Finite (- 128)) \<or> js_less (Finite 127) (Finite 4294967296)) \<and>
   i8_new (Finite 4294967296) = Inl (Error [Num (Finite 4294967296), Text '' is not in range '',
        Num (Finite (- 128)), Text ''..'', Num (Finite 127)]) \<and>
   Number_toString (Finite 4294967296) = Some ''4294967296'' \<and>
   template_toString [Num (Finite 4294967296), Text '' is not in range '',
        Num (Finite (- 128)), Text ''..'', Num (Finite 127)] =
     Some ''4294967296 is not in range -128..127'' \<and>
   i8_read [0, 0, 0, 0, 0, 0, 0, 0] 0 = Inr (I8 (Finite 0), 1) \<and>
   readInt8 [0, 0, 0, 0, 0, 0, 0, 0] 0 = Inr (Finite 0) \<and>
   i8_new (Finite 0) = Inr (I8 (Finite 0)) \<and>
   (js_less (Finite 4294967296) (Finite (- 32768)) \<or> js_less (Finite 32767) (Finite 4294967296)) \<and>
   i16_new (Finite 4294967296) = Inl (Error [Num (Finite 4294967296), Text '' is not in range '',
        Num (Finite (- 32768)), Text ''..'', Num (Finite 32767)]) \<and>
   Number_toString (Finite 4294967296) = Some ''4294967296'' \<and>
   template_toString [Num (Finite 4294967296), Text '' is not in range '',
        Num (Finite (- 32768)), Text ''..'', Num (Finite 32767)] =
     Some ''4294967296 is not in range -32768..32767'' \<and>
   i16_read [0, 0, 0, 0, 0, 0, 0, 0] 0 = Inr (I16 (Finite 0), 2) \<and>
   readInt16LE [0, 0, 0, 0, 0, 0, 0, 0] 0 = Inr (Finite 0) \<and>
   i16_new (Finite 0) = Inr (I16 (Finite 0)) \<and>
   (js_less (Finite 4294967296) (Finite (- 2147483648)) \<or> js_less (Finite 2147483647) (Finite 4294967296)) \<and>
   i32_new (Finite 4294967296) = Inl (Error [Num (Finite 4294967296), Text '' is not in range '',
        Num (Finite (- 2147483648)), Text ''..'', Num (Finite 2147483647)]) \<and>
   Number_toString (Finite 4294967296) = Some ''4294967296'' \<and>
   template_toString [Num (Finite 4294967296), Text '' is not in range '',
        Num (Finite (- 2147483648)), Text ''..'', Num (Finite 2147483647)] =
     Some ''4294967296 is not in range -2147483648..2147483647'' \<and>
   i32_read [0, 0, 0, 0, 0, 0, 0, 0] 0 = Inr (I32 (Finite 0), 4) \<and>
   readInt32LE [0, 0, 0, 0, 0, 0, 0, 0] 0 = Inr (Finite 0) \<and>
   i32_new (Finite 0) = Inr (I32 (Finite 0)) \<and>
   ((18446744073709551616::int) < - 9223372036854775808 \<or> 9223372036854775807 < (18446744073709551616::int)) \<and>
   i64_new 18446744073709551616 = Inl (Error [Big 18446744073709551616, Text '' is not in range '',
        Big (- 9223372036854775808), Text ''..'', Big 9223372036854775807]) \<and>
   show_int 18446744073709551616 = ''18446744073709551616'' \<and>
   template_toString [Big 18446744073709551616, Text '' is not in range '',
        Big (- 9223372036854775808), Text ''..'', Big 9223372036854775807] =
     Some ''18446744073709551616 is not in range -9223372036854775808..9223372036854775807'' \<and>
   i64_read [0, 0, 0, 0, 0, 0, 0, 0] 0 = Inr (I64 0, 8) \<and>
   readBigInt64LE [0, 0, 0, 0, 0, 0, 0, 0] 0 = Inr 0 \<and>
   i64_new 0 = Inr (I64 0) \<and>
   (js_less (Finite 4294967296) (Finite 0) \<or> js_less (Finite 255) (Finite 4294967296)) \<and>
   u8_new (Finite 4294967296) = Inl (Error [Num (Finite 4294967296), Text '' is not in range '',
        Num (Finite 0), Text ''..'', Num (Finite 255)]) \<and>
   Number_toString (Finite 4294967296) = Some ''4294967296'' \<and>
   template_toString [Num (Finite 4294967296), Text '' is not in range '',
        Num (Finite 0), Text ''..'', Num (Finite 255)] =
     Some ''4294967296 is not in range 0..255'' \<and>
   u8_read [0, 0, 0, 0, 0, 0, 0, 0] 0 = Inr (U8 (Finite 0), 1) \<and>
   readUInt8 [0, 0, 0, 0, 0, 0, 0, 0] 0 = Inr (Finite 0) \<and>
   u8_new (Finite 0) = Inr (U8 (Finite 0)) \<and>
   (js_less (Finite 4294967296) (Finite 0) \<or> js_less (Finite 65535) (Finite 4294967296)) \<and>
   u16_new (Finite 4294967296) = Inl (Error [Num (Finite 4294967296), Text '' is not in range '',
        Num (Finite 0), Text ''..'', Num (Finite 65535)]) \<and>
   Number_toString (Finite 4294967296) = Some ''4294967296'' \<and>
   template_toString [Num (Finite 4294967296), Text '' is not in range '',
        Num (Finite 0), Text ''..'', Num (Finite 65535)] =
     Some ''4294967296 is not in range 0..65535'' \<and>
   u16_read [0, 0, 0, 0, 0, 0, 0, 0] 0 = Inr (U16 (Finite 0), 1) \<and>
   readUInt16LE [0, 0, 0, 0, 0, 0, 0, 0] 0 = Inr (Finite 0) \<and>
   u16_new (Finite 0) = Inr (U16 (Finite 0)) \<and>
   (js_less (Finite 4294967296) (Finite 0) \<or> js_less (Finite 4294967295) (Finite 4294967296)) \<and>
   u32_new (Finite 4294967296) = Inl (Error [Num (Finite 4294967296), Text '' is not in range '',
        Num (Finite 0), Text ''..'', Num (Finite 4294967295)]) \<and>
   Number_toString (Finite 4294967296) = Some ''4294967296'' \<and>
   template_toString [Num (Finite 4294967296), Text '' is not in range '',
        Num (Finite 0), Text ''..'', Num (Finite 4294967295)] =
     Some ''4294967296 is not in range 0..4294967295'' \<and>
   u32_read [0, 0, 0, 0, 0, 0, 0, 0] 0 = Inr (U32 (Finite 0), 1) \<and>
   readUint32LE [0, 0, 0, 0, 0, 0, 0, 0] 0 = Inr (Finite 0) \<and>
   u32_new (Finite 0) = Inr (U32 (Finite 0)) \<and>
   ((18446744073709551616::int) < 0 \<or> 18446744073709551615 < (18446744073709551616::int)) \<and>
   u64_new 18446744073709551616 = Inl (Error [Big 18446744073709551616, Text '' is not in range '',
        Big 0, Text ''..'', Big 18446744073709551615]) \<and>
   show_int 18446744073709551616 = ''18446744073709551616'' \<and>
   template_toString [Big 18446744073709551616, Text '' is not in range '',
        Big 0, Text ''..'', Big 18446744073709551615] =
     Some ''18446744073709551616 is not in range 0..18446744073709551615'' \<and>
   u64_read [0, 0, 0, 0, 0, 0, 0, 0] 0 = Inr (U64 0, 1) \<and>
   readBigUInt64LE [0, 0, 0, 0, 0, 0, 0, 0] 0 = Inr 0 \<and>
   u64_new 0 = Inr (U64 0)"
proof -
  note t = constructor_range_check [of "Finite 4294967296" "[0, 0, 0, 0, 0, 0, 0, 0]" 0 18446744073709551616]
  note u1 = t
  note u2 = u1 [THEN conjunct2, THEN conjunct2, THEN conjunct2, THEN conjunct2, THEN conjunct2]
  note u3 = u2 [THEN conjunct2, THEN conjunct2, THEN conjunct2, THEN conjunct2, THEN conjunct2]
  note u4 = u3 [THEN conjunct2, THEN conjunct2, THEN conjunct2, THEN conjunct2, THEN conjunct2]
  note u5 = u4 [THEN conjunct2, THEN conjunct2, THEN conjunct2, THEN conjunct2, THEN conjunct2]
  note u6 = u5 [THEN conjunct2, THEN conjunct2, THEN conjunct2, THEN conjunct2, THEN conjunct2]
  note u7 = u6 [THEN conjunct2, THEN conjunct2, THEN conjunct2, THEN conjunct2, THEN conjunct2]
  note u8 = u7 [THEN conjunct2, THEN conjunct2, THEN conjunct2, THEN conjunct2, THEN conjunct2]
  have h: "js_less (Finite 4294967296) (Finite (- 128)) \<or> js_less (Finite 127) (Finite 4294967296)"
    "js_less (Finite 4294967296) (Finite (- 32768)) \<or> js_less (Finite 32767) (Finite 4294967296)"
    "js_less (Finite 4294967296) (Finite (- 2147483648)) \<or> js_less (Finite 2147483647) (Finite 4294967296)"
    "(18446744073709551616::int) < - 9223372036854775808 \<or> 9223372036854775807 < (18446744073709551616::int)"
    "js_less (Finite 4294967296) (Finite 0) \<or> js_less (Finite 255) (Finite 4294967296)"
    "js_less (Finite 4294967296) (Finite 0) \<or> js_less (Finite 65535) (Finite 4294967296)"
    "js_less (Finite 4294967296) (Finite 0) \<or> js_less (Finite 4294967295) (Finite 4294967296)"
    "(18446744073709551616::int) < 0 \<or> 18446744073709551615 < (18446744073709551616::int)"
    by simp_all
  have s: "Number_toString (Finite 4294967296) = Some ''4294967296''"
    "show_int 18446744073709551616 = ''18446744073709551616''"
    by code_simp+
  have r: "i8_read [0, 0, 0, 0, 0, 0, 0, 0] 0 = Inr (I8 (Finite 0), 1)"
    "i16_read [0, 0, 0, 0, 0, 0, 0, 0] 0 = Inr (I16 (Finite 0), 2)"
    "i32_read [0, 0, 0, 0, 0, 0, 0, 0] 0 = Inr (I32 (Finite 0), 4)"
    "i64_read [0, 0, 0, 0, 0, 0, 0, 0] 0 = Inr (I64 0, 8)"
    "u8_read [0, 0, 0, 0, 0, 0, 0, 0] 0 = Inr (U8 (Finite 0), 1)"
    "u16_read [0, 0, 0, 0, 0, 0, 0, 0] 0 = Inr (U16 (Finite 0), 1)"
    "u32_read [0, 0, 0, 0, 0, 0, 0, 0] 0 = Inr (U32 (Finite 0), 1)"
    "u64_read [0, 0, 0, 0, 0, 0, 0, 0] 0 = Inr (U64 0, 1)"
    by code_simp+
  have raw: "readInt8 [0, 0, 0, 0, 0, 0, 0, 0] 0 = Inr (Finite 0)"
    "readInt16LE [0, 0, 0, 0, 0, 0, 0, 0] 0 = Inr (Finite 0)"
    "readInt32LE [0, 0, 0, 0, 0, 0, 0, 0] 0 = Inr (Finite 0)"
    "readBigInt64LE [0, 0, 0, 0, 0, 0, 0, 0] 0 = Inr 0"
    "readUInt8 [0, 0, 0, 0, 0, 0, 0, 0] 0 = Inr (Finite 0)"
    "readUInt16LE [0, 0, 0, 0, 0, 0, 0, 0] 0 = Inr (Finite 0)"
    "readUint32LE [0, 0, 0, 0, 0, 0, 0, 0] 0 = Inr (Finite 0)"
    "readBigUInt64LE [0, 0, 0, 0, 0, 0, 0, 0] 0 = Inr 0"
    by code_simp+
  have e1: "i8_new (Finite 4294967296) = Inl (Error [Num (Finite 4294967296), Text '' is not in range '',
        Num (Finite (- 128)), Text ''..'', Num (Finite 127)])"
    by (rule u1 [THEN conjunct1, rule_format, OF h(1)])
  have e2: "i16_new (Finite 4294967296) = Inl (Error [Num (Finite 4294967296), Text '' is not in range '',
        Num (Finite (- 32768)), Text ''..'', Num (Finite 32767)])"
    by (rule u2 [THEN conjunct1, rule_format, OF h(2)])
  have e3: "i32_new (Finite 4294967296) = Inl (Error [Num (Finite 4294967296), Text '' is not in range '',
        Num (Finite (- 2147483648)), Text ''..'', Num (Finite 2147483647)])"
    by (rule u3 [THEN conjunct1, rule_format, OF h(3)])
  have e4: "i64_new 18446744073709551616 = Inl (Error [Big 18446744073709551616, Text '' is not in range '',
        Big (- 9223372036854775808), Text ''..'', Big 9223372036854775807])"
    by (rule u4 [THEN conjunct1, rule_format, OF h(4)])
  have e5: "u8_new (Finite 4294967296) = Inl (Error [Num (Finite 4294967296), Text '' is not in range '',
        Num (Finite 0), Text ''..'', Num (Finite 255)])"
    by (rule u5 [THEN conjunct1, rule_format, OF h(5)])
  have e6: "u16_new (Finite 4294967296) = Inl (Error [Num (Finite 4294967296), Text '' is not in range '',
        Num (Finite 0), Text ''..'', Num (Finite 65535)])"
    by (rule u6 [THEN conjunct1, rule_format, OF h(6)])
  have e7: "u32_new (Finite 4294967296) = Inl (Error [Num (Finite 4294967296), Text '' is not in range '',
        Num (Finite 0), Text ''..'', Num (Finite 4294967295)])"
    by (rule u7 [THEN conjunct1, rule_format, OF h(7)])
  have e8: "u64_new 18446744073709551616 = Inl (Error [Big 18446744073709551616, Text '' is not in range '',
        Big 0, Text ''..'', Big 18446744073709551615])"
    by (rule u8 [THEN conjunct1, rule_format, OF h(8)])
  have m1: "template_toString [Num (Finite 4294967296), Text '' is not in range '',
        Num (Finite (- 128)), Text ''..'', Num (Finite 127)] =
       Some ''4294967296 is not in range -128..127''"
    using u1 [THEN conjunct2, THEN conjunct1, rule_format, OF s(1)] by simp
  have m2: "template_toString [Num (Finite 4294967296), Text '' is not in range '',
        Num (Finite (- 32768)), Text ''..'', Num (Finite 32767)] =
       Some ''4294967296 is not in range -32768..32767''"
    using u2 [THEN conjunct2, THEN conjunct1, rule_format, OF s(1)] by simp
  have m3: "template_toString [Num (Finite 4294967296), Text '' is not in range '',
        Num (Finite (- 2147483648)), Text ''..'', Num (Finite 2147483647)] =
       Some ''4294967296 is not in range -2147483648..2147483647''"
    using u3 [THEN conjunct2, THEN conjunct1, rule_format, OF s(1)] by simp
  have m4: "template_toString [Big 18446744073709551616, Text '' is not in range '',
        Big (- 9223372036854775808), Text ''..'', Big 9223372036854775807] =
       Some ''18446744073709551616 is not in range -9223372036854775808..9223372036854775807''"
    using u4 [THEN conjunct2, THEN conjunct1, rule_format, unfolded s(2)] by simp
  have m5: "template_toString [Num (Finite 4294967296), Text '' is not in range '',
        Num (Finite 0), Text ''..'', Num (Finite 255)] =
       Some ''4294967296 is not in range 0..255''"
    using u5 [THEN conjunct2, THEN conjunct1, rule_format, OF s(1)] by simp
  have m6: "template_toString [Num (Finite 4294967296), Text '' is not in range '',
        Num (Finite 0), Text ''..'', Num (Finite 65535)] =
       Some ''4294967296 is not in range 0..65535''"
    using u6 [THEN conjunct2, THEN conjunct1, rule_format, OF s(1)] by simp
  have m7: "template_toString [Num (Finite 4294967296), Text '' is not in range '',
        Num (Finite 0), Text ''..'', Num (Finite 4294967295)] =
       Some ''4294967296 is not in range 0..4294967295''"
    using u7 [THEN conjunct2, THEN conjunct1, rule_format, OF s(1)] by simp
  have m8: "template_toString [Big 18446744073709551616, Text '' is not in range '',
        Big 0, Text ''..'', Big 18446744073709551615] =
       Some ''18446744073709551616 is not in range 0..18446744073709551615''"
    using u8 [THEN conjunct2, THEN conjunct1, rule_format, unfolded s(2)] by simp
  have z1: "i8_new (Finite 0) = Inr (I8 (Finite 0))"
    using u1 [THEN conjunct2, THEN conjunct2, THEN conjunct2, THEN conjunct2, THEN conjunct1, rule_format, OF r(1)] raw(1) by auto
  have z2: "i16_new (Finite 0) = Inr (I16 (Finite 0))"
    using u2 [THEN conjunct2, THEN conjunct2, THEN conjunct2, THEN conjunct2, THEN conjunct1, rule_format, OF r(2)] raw(2) by auto
  have z3: "i32_new (Finite 0) = Inr (I32 (Finite 0))"
    using u3 [THEN conjunct2, THEN conjunct2, THEN conjunct2, THEN conjunct2, THEN conjunct1, rule_format, OF r(3)] raw(3) by auto
  have z4: "i64_new 0 = Inr (I64 0)"
    using u4 [THEN conjunct2, THEN conjunct2, THEN conjunct2, THEN conjunct2, THEN conjunct1, rule_format, OF r(4)] raw(4) by auto
  have z5: "u8_new (Finite 0) = Inr (U8 (Finite 0))"
    using u5 [THEN conjunct2, THEN conjunct2, THEN conjunct2, THEN conjunct2, THEN conjunct1, rule_format, OF r(5)] raw(5) by auto
  have z6: "u16_new (Finite 0) = Inr (U16 (Finite 0))"
    using u6 [THEN conjunct2, THEN conjunct2, THEN conjunct2, THEN conjunct2, THEN conjunct1, rule_format, OF r(6)] raw(6) by auto
  have z7: "u32_new (Finite 0) = Inr (U32 (Finite 0))"
    using u7 [THEN conjunct2, THEN conjunct2, THEN conjunct2, THEN conjunct2, THEN conjunct1, rule_format, OF r(7)] raw(7) by auto
  have z8: "u64_new 0 = Inr (U64 0)"
    using u8 [THEN conjunct2, THEN conjunct2, THEN conjunct2, THEN conjunct2, rule_format, OF r(8)] raw(8) by auto
  show ?thesis
    by (intro conjI h s r raw e1 m1 z1 e2 m2 z2 e3 m3 z3 e4 m4 z4 e5 m5 z5 e6 m6 z6 e7 m7 z7 e8 m8 z8)
qed


section \<open>Writing a value and reading it back\<close>

text \<open>
  Claim C5. For every bounded numeric class and every raw value in its range, writing
  the value at an offset of a large enough buffer and reading the class from that offset
  gives the value back, and the cursor advances by the width of the class in the write
  and in the read. An integer value does come back for all eight classes (the lemmas
  \<open>i8_roundtrip\<close> to \<open>u64_roundtrip\<close>). At the input below the two-byte \<open>u16\<close> 4660
  is written and read back with the cursor at 1 each time; the next \<open>u16\<close> written at
  that cursor overwrites its high byte, and the first value then reads as 1076.
\<close>

theorem u16_roundtrip_cursor:
  "u16_write (U16 (Finite 4660)) [0, 0, 0, 0] 0 = Inr ([52, 18, 0, 0], 1) \<and>
   u16_read [52, 18, 0, 0] 0 = Inr (U16 (Finite 4660), 1) \<and>
   u16_write (U16 (Finite 772)) [52, 18, 0, 0] 1 = Inr ([52, 4, 3, 0], 2) \<and>
   u16_read [52, 4, 3, 0] 0 = Inr (U16 (Finite 1076), 1)"
  by code_simp

section \<open>The identifier codec\<close>

lemma takeWhile_zero_replicate:
  "takeWhile (\<lambda>b. b = z) bs = replicate (length (takeWhile (\<lambda>b. b = z) bs)) z"
  by (induction bs) simp_all

lemma pad_significant:
  "replicate (length bs - length (dropWhile (\<lambda>b. b = z) bs)) z @ dropWhile (\<lambda>b. b = z) bs = bs"
proof -
  have "length (takeWhile (\<lambda>b. b = z) bs @ dropWhile (\<lambda>b. b = z) bs) = length bs"
    by (simp only: takeWhile_dropWhile_id)
  then have "length bs = length (takeWhile (\<lambda>b. b = z) bs) + length (dropWhile (\<lambda>b. b = z) bs)"
    by (simp only: length_append)
  then have "length bs - length (dropWhile (\<lambda>b. b = z) bs) = length (takeWhile (\<lambda>b. b = z) bs)"
    by simp
  then show ?thesis
    using takeWhile_zero_replicate [of z bs] by simp
qed

lemma PublicKey_new_32:
  assumes "length bytes = 32"
  shows "PublicKey_new bytes = Inr (PublicKey bytes)"
proof -
  have "length (dropWhile (\<lambda>b. b = 0) bytes) \<le> 32"
    using length_dropWhile_le [of "\<lambda>b. b = 0" bytes] assms by simp
  then show ?thesis
    using pad_significant [of bytes 0] assms by (simp add: PublicKey_new_def Let_def)
qed

lemma Buffer_copy_room:
  assumes "targetStart + length source \<le> length target"
  shows "Buffer_copy source target targetStart =
           take targetStart target @ source @ drop (targetStart + length source) target"
proof -
  have "min (length source) (length target - targetStart) = length source"
    using assms by simp
  then show ?thesis
    by (simp add: Buffer_copy_def Let_def)
qed

lemma Buffer_copy_length: "length (Buffer_copy source target targetStart) = length target"
  by (auto simp: Buffer_copy_def Let_def min_def)

lemma patch_nth_outside:
  assumes "off + length bs \<le> length b" and "i < length b" and "i < off \<or> off + length bs \<le> i"
  shows "(take off b @ bs @ drop (off + length bs) b) ! i = b ! i"
proof (cases "i < off")
  case True
  then show ?thesis
    using assms(1) by (simp add: nth_append)
next
  case False
  with assms(3) have far: "off + length bs \<le> i" by simp
  have off: "length (take off b) = off"
    using assms(1) by simp
  have "(take off b @ bs @ drop (off + length bs) b) ! i = (bs @ drop (off + length bs) b) ! (i - off)"
    using far by (simp only: nth_append off) simp
  also have "\<dots> = drop (off + length bs) b ! (i - off - length bs)"
  proof -
    have "\<not> i - off < length bs"
      using far by simp
    then show ?thesis
      by (simp only: nth_append if_False)
  qed
  also have "\<dots> = b ! (off + length bs + (i - off - length bs))"
    using assms(1) by (intro nth_drop) simp
  also have "off + length bs + (i - off - length bs) = i"
    using far by simp
  finally show ?thesis .
qed

lemma PublicKey_new_length:
  assumes "PublicKey_new bytes = Inr k"
  shows "length (toBuffer k) = 32"
proof -
  let ?s = "dropWhile (\<lambda>b. b = 0) bytes"
  from assms have "\<not> 32 < length ?s" and "k = PublicKey (replicate (32 - length ?s) 0 @ ?s)"
    by (auto simp: PublicKey_new_def Let_def split: if_splits)
  then show ?thesis by simp
qed

lemma PublicKey_new_slice:
  "\<exists>k. PublicKey_new (Buffer_slice buffer offset (offset + 32)) = Inr k"
proof -
  let ?s = "dropWhile (\<lambda>b. b = 0) (Buffer_slice buffer offset (offset + 32))"
  have "length ?s \<le> length (Buffer_slice buffer offset (offset + 32))"
    by (rule length_dropWhile_le)
  also have "\<dots> \<le> 32"
    by (simp add: Buffer_slice_def)
  finally show ?thesis
    by (simp add: PublicKey_new_def Let_def)
qed

lemma Buffer_copy_outside:
  assumes "i < length target" and "i < targetStart \<or> targetStart + length source \<le> i"
  shows "Buffer_copy source target targetStart ! i = target ! i"
proof (cases "targetStart \<le> length target")
  case False
  then show ?thesis
    by (simp add: Buffer_copy_def Let_def)
next
  case True
  define n where "n = min (length source) (length target - targetStart)"
  have n: "length (take n source) = n" "targetStart + n \<le> length target" "n \<le> length source"
    using True by (simp_all add: n_def)
  have "(take targetStart target @ take n source @ drop (targetStart + length (take n source)) target) ! i
      = target ! i"
    using assms n by (intro patch_nth_outside) auto
  then have "(take targetStart target @ take n source @ drop (targetStart + n) target) ! i
      = target ! i"
    by (simp only: n(1))
  then show ?thesis
    by (simp only: Buffer_copy_def Let_def n_def [symmetric])
qed

text \<open>
  Claim C9. For every 32-byte identifier, \<open>write\<close> copies exactly the 32 bytes into
  the buffer at the cursor and advances the cursor by 32, \<open>read\<close> slices exactly 32
  bytes from the cursor and advances it by 32, both sizes are 32, writing then reading
  gives a byte-for-byte equal identifier, and no byte outside the 32-byte span at the
  cursor is touched. On a buffer with fewer than 32 bytes from the cursor the copy and
  the slice are cut short without an error: below, two of the 32 bytes are written, two
  are read, and the identifier read is another one.
\<close>

theorem SerializablePublicKey_short_buffer:
  "length (toBuffer (key (SerializablePublicKey (PublicKey
       [1, 2, 3, 4, 5, 6, 7, 8, 9, 10, 11, 12, 13, 14, 15, 16, 17,
        18, 19, 20, 21, 22, 23, 24, 25, 26, 27, 28, 29, 30, 31, 32])))) = 32 \<and>
   SerializablePublicKey_write (SerializablePublicKey (PublicKey
       [1, 2, 3, 4, 5, 6, 7, 8, 9, 10, 11, 12, 13, 14, 15, 16, 17,
        18, 19, 20, 21, 22, 23, 24, 25, 26, 27, 28, 29, 30, 31, 32])) [0, 0, 0, 0] 2 = Inr ([0, 0, 1, 2], 34) \<and>
   SerializablePublicKey_read [0, 0, 1, 2] 2 =
     Inr (SerializablePublicKey (PublicKey
       [0, 0, 0, 0, 0, 0, 0, 0, 0, 0, 0, 0, 0, 0, 0, 0, 0,
        0, 0, 0, 0, 0, 0, 0, 0, 0, 0, 0, 0, 0, 1, 2]), 34) \<and>
   SerializablePublicKey_read [0, 0, 1, 2] 2 \<noteq> Inr (SerializablePublicKey (PublicKey
       [1, 2, 3, 4, 5, 6, 7, 8, 9, 10, 11, 12, 13, 14, 15, 16, 17,
        18, 19, 20, 21, 22, 23, 24, 25, 26, 27, 28, 29, 30, 31, 32]), 34)"
  by code_simp

text \<open>
  Claim C9, amended. For every 32-byte identifier: on any buffer \<open>write\<close> and
  \<open>read\<close> return with the cursor advanced by 32, every byte outside the 32-byte span
  at the cursor is as it was, and \<open>staticSize\<close> and \<open>serializedSize\<close> are 32. When
  the buffer holds at least 32 bytes from the cursor, \<open>write\<close> puts exactly the 32
  bytes of the identifier there, \<open>read\<close> takes exactly the 32 bytes at the cursor as
  the identifier, and reading at the offset just written gives the identifier back, byte
  for byte.
\<close>

theorem SerializablePublicKey_codec:
  assumes "length (toBuffer (key this)) = 32"
  shows "\<exists>buffer'.
           SerializablePublicKey_write this buffer offset = Inr (buffer', offset + 32) \<and>
           length buffer' = length buffer \<and>
           (\<forall>i < length buffer. i < offset \<or> offset + 32 \<le> i \<longrightarrow> buffer' ! i = buffer ! i) \<and>
           (\<exists>k. SerializablePublicKey_read buffer offset = Inr (k, offset + 32)) \<and>
           SerializablePublicKey_staticSize = 32 \<and>
           SerializablePublicKey_serializedSize this = 32 \<and>
           (offset + 32 \<le> length buffer \<longrightarrow>
              take 32 (drop offset buffer') = toBuffer (key this) \<and>
              SerializablePublicKey_read buffer offset =
                Inr (SerializablePublicKey (PublicKey (take 32 (drop offset buffer))),
                     offset + 32) \<and>
              SerializablePublicKey_read buffer' offset = Inr (this, offset + 32))"
proof -
  let ?k = "toBuffer (key this)"
  let ?b = "Buffer_copy ?k buffer offset"
  have w: "SerializablePublicKey_write this buffer offset = Inr (?b, offset + 32)"
    by (simp add: SerializablePublicKey_write_def)
  have len: "length ?b = length buffer"
    by (rule Buffer_copy_length)
  have outside: "\<forall>i < length buffer. i < offset \<or> offset + 32 \<le> i \<longrightarrow> ?b ! i = buffer ! i"
    using Buffer_copy_outside [of _ buffer offset ?k] assms by simp
  have any: "\<exists>k. SerializablePublicKey_read buffer offset = Inr (k, offset + 32)"
    using PublicKey_new_slice [of buffer offset]
    by (auto simp: SerializablePublicKey_read_def)
  have rd: "SerializablePublicKey_read c offset =
      Inr (SerializablePublicKey (PublicKey (take 32 (drop offset c))), offset + 32)"
    if "offset + 32 \<le> length c" for c
  proof -
    have "length (take 32 (drop offset c)) = 32"
      using that by simp
    then show ?thesis
      by (simp add: SerializablePublicKey_read_def Buffer_slice_def PublicKey_new_32)
  qed
  have room: "take 32 (drop offset ?b) = ?k \<and>
      SerializablePublicKey_read buffer offset =
        Inr (SerializablePublicKey (PublicKey (take 32 (drop offset buffer))), offset + 32) \<and>
      SerializablePublicKey_read ?b offset = Inr (this, offset + 32)"
    if r: "offset + 32 \<le> length buffer"
  proof -
    have copy: "?b = take offset buffer @ ?k @ drop (offset + 32) buffer"
      using Buffer_copy_room [of offset ?k buffer] assms r by simp
    have slice: "take 32 (drop offset ?b) = ?k"
      unfolding copy using assms r by simp
    have "SerializablePublicKey_read ?b offset = Inr (this, offset + 32)"
      using rd [of ?b] len r by (simp only: slice) simp
    with slice rd [OF r] show ?thesis by simp
  qed
  show ?thesis
    using w len outside any room
    by (intro exI [of _ ?b] conjI impI)
       (simp_all add: SerializablePublicKey_staticSize_def SerializablePublicKey_serializedSize_def)
qed

theorem SerializablePublicKey_codec_witness:
  "length (toBuffer (key (SerializablePublicKey (PublicKey
       [1, 2, 3, 4, 5, 6, 7, 8, 9, 10, 11, 12, 13, 14, 15, 16, 17,
        18, 19, 20, 21, 22, 23, 24, 25, 26, 27, 28, 29, 30, 31, 32])))) = 32 \<and>
   3 + 32 \<le> length (replicate 40 170 :: Buffer) \<and>
   (\<exists>buffer'.
      SerializablePublicKey_write (SerializablePublicKey (PublicKey
       [1, 2, 3, 4, 5, 6, 7, 8, 9, 10, 11, 12, 13, 14, 15, 16, 17,
        18, 19, 20, 21, 22, 23, 24, 25, 26, 27, 28, 29, 30, 31, 32])) (replicate 40 170) 3 = Inr (buffer', 35) \<and>
      length buffer' = 40 \<and>
      buffer' ! 2 = 170 \<and> buffer' ! 35 = 170 \<and>
      take 32 (drop 3 buffer') = toBuffer (key (SerializablePublicKey (PublicKey
       [1, 2, 3, 4, 5, 6, 7, 8, 9, 10, 11, 12, 13, 14, 15, 16, 17,
        18, 19, 20, 21, 22, 23, 24, 25, 26, 27, 28, 29, 30, 31, 32]))) \<and>
      SerializablePublicKey_read buffer' 3 = Inr (SerializablePublicKey (PublicKey
       [1, 2, 3, 4, 5, 6, 7, 8, 9, 10, 11, 12, 13, 14, 15, 16, 17,
        18, 19, 20, 21, 22, 23, 24, 25, 26, 27, 28, 29, 30, 31, 32]), 35))"
proof -
  let ?K = "SerializablePublicKey (PublicKey
       [1, 2, 3, 4, 5, 6, 7, 8, 9, 10, 11, 12, 13, 14, 15, 16, 17,
        18, 19, 20, 21, 22, 23, 24, 25, 26, 27, 28, 29, 30, 31, 32])"
  let ?B = "replicate 40 170 :: Buffer"
  have h1: "length (toBuffer (key ?K)) = 32"
    by simp
  have h2: "3 + 32 \<le> length ?B"
    by simp
  from SerializablePublicKey_codec [OF h1, of ?B 3]
  obtain b' where w: "SerializablePublicKey_write ?K ?B 3 = Inr (b', 3 + 32)"
    and len: "length b' = length ?B"
    and outside: "\<forall>i < length ?B. i < 3 \<or> 3 + 32 \<le> i \<longrightarrow> b' ! i = ?B ! i"
    and room: "3 + 32 \<le> length ?B \<longrightarrow>
      take 32 (drop 3 b') = toBuffer (key ?K) \<and>
      SerializablePublicKey_read ?B 3 =
        Inr (SerializablePublicKey (PublicKey (take 32 (drop 3 ?B))), 3 + 32) \<and>
      SerializablePublicKey_read b' 3 = Inr (?K, 3 + 32)"
    by blast
  have "b' ! 2 = ?B ! 2" and "b' ! 35 = ?B ! 35"
    using outside by simp_all
  then have "b' ! 2 = 170" and "b' ! 35 = 170"
    by simp_all
  moreover have "take 32 (drop 3 b') = toBuffer (key ?K)"
    and "SerializablePublicKey_read b' 3 = Inr (?K, 3 + 32)"
    using room h2 by blast+
  ultimately have "SerializablePublicKey_write ?K ?B 3 = Inr (b', 35) \<and> length b' = 40 \<and>
      b' ! 2 = 170 \<and> b' ! 35 = 170 \<and>
      take 32 (drop 3 b') = toBuffer (key ?K) \<and>
      SerializablePublicKey_read b' 3 = Inr (?K, 35)"
    using w len by simp
  then show ?thesis
    using h1 h2 by blast
qed

section \<open>The tagged reader and writer over any type arguments\<close>

text \<open>
  \<open>readAccount\<close> leaves the cursor where the discriminant's \<open>read\<close> left it when the
  discriminant differs, and hands that cursor to the body's \<open>read\<close> when it matches.
  An error thrown by either \<open>read\<close> is the error of \<open>readAccount\<close>.
\<close>

lemma readAccount_mismatch:
  assumes "dCons_read dCons buffer offset = Inr (d, offset1)"
    and "\<not> dCons_equals dCons d (tCons_discriminant tCons)"
  shows "readAccount dCons tCons buffer (Some offset) = Inr (None, offset1)"
  using assms by (simp add: readAccount_def)

lemma readAccount_match:
  assumes "dCons_read dCons buffer offset = Inr (d, offset1)"
    and "dCons_equals dCons d (tCons_discriminant tCons)"
  shows "readAccount dCons tCons buffer (Some offset) =
           (case tCons_read tCons buffer offset1 of
              Inl e \<Rightarrow> Inl e
            | Inr (t, offset2) \<Rightarrow> Inr (Some t, offset2))"
  using assms by (simp add: readAccount_def)

lemma readAccount_discriminant_error:
  assumes "dCons_read dCons buffer offset = Inl e"
  shows "readAccount dCons tCons buffer (Some offset) = Inl e"
  using assms by (simp add: readAccount_def)

text \<open>
  When both \<open>write\<close> methods put an encoding of the reported size at the cursor and
  advance the cursor by that size, \<open>serializeInstruction\<close> returns the two encodings
  one after the other and nothing else.
\<close>

lemma serializeInstruction_exact:
  assumes sizeD: "Serialize_serializedSize D d = length encD"
    and sizeT: "Serialize_serializedSize T t = length encT"
    and writeD: "\<And>b. length encD \<le> length b \<Longrightarrow>
        Serialize_write D d b 0 = Inr (encD @ drop (length encD) b, length encD)"
    and writeT: "\<And>b off. off + length encT \<le> length b \<Longrightarrow>
        Serialize_write T t b off =
          Inr (take off b @ encT @ drop (off + length encT) b, off + length encT)"
  shows "serializeInstruction D T d t = Inr (encD @ encT)"
proof -
  let ?b0 = "Buffer_alloc (length encD + length encT)"
  let ?b1 = "encD @ drop (length encD) ?b0"
  have len0: "length ?b0 = length encD + length encT"
    by (simp add: Buffer_alloc_def)
  have w1: "Serialize_write D d ?b0 0 = Inr (?b1, length encD)"
    using writeD [of ?b0] len0 by simp
  have len1: "length ?b1 = length encD + length encT"
    using len0 by simp
  have w2: "Serialize_write T t ?b1 (length encD) =
      Inr (take (length encD) ?b1 @ encT @ drop (length encD + length encT) ?b1,
           length encD + length encT)"
    using writeT [of "length encD" ?b1] len1 by simp
  have "take (length encD) ?b1 @ encT @ drop (length encD + length encT) ?b1 = encD @ encT"
    using len0 by simp
  with w1 w2 show ?thesis
    by (simp add: serializeInstruction_def sizeD sizeT Let_def)
qed

text \<open>
  With the signed classes the spec's scenario comes out as written: an \<open>i32\<close>
  discriminant 7 and an \<open>i64\<close> body -1.
\<close>

lemma i32_i64_scenario:
  "serializeInstruction i32_Serialize i64_Serialize (I32 (Finite 7)) (I64 (- 1)) =
     Inr [7, 0, 0, 0, 255, 255, 255, 255, 255, 255, 255, 255]"
  "readAccount i32_DCons \<lparr>tCons_read = i64_read, tCons_discriminant = I32 (Finite 7)\<rparr>
     [7, 0, 0, 0, 255, 255, 255, 255, 255, 255, 255, 255] None = Inr (Some (I64 (- 1)), 12)"
  "readAccount i32_DCons \<lparr>tCons_read = i64_read, tCons_discriminant = I32 (Finite 8)\<rparr>
     [7, 0, 0, 0, 255, 255, 255, 255, 255, 255, 255, 255] None = Inr (None, 4)"
  by code_simp+

lemma serializeInstruction_i32_i64:
  assumes "i32_new (Finite (of_int v)) = Inr d" and "i64_new u = Inr t"
  shows "serializeInstruction i32_Serialize i64_Serialize d t = Inr (le_bytes 4 v @ le_bytes 8 u)"
proof (rule serializeInstruction_exact)
  from assms have d: "d = I32 (Finite (of_int v))" "- 2147483648 \<le> v" "v \<le> 2147483647"
    and t: "t = I64 u" "- 9223372036854775808 \<le> u" "u \<le> 9223372036854775807"
    by (simp_all add: i32_new_integer i64_new_Inr)
  show "Serialize_serializedSize i32_Serialize d = length (le_bytes 4 v)"
    by (simp add: i32_Serialize_def i32_serializedSize_def i32_staticSize_def length_le_bytes)
  show "Serialize_serializedSize i64_Serialize t = length (le_bytes 8 u)"
    by (simp add: i64_Serialize_def i64_serializedSize_def i64_staticSize_def length_le_bytes)
  show "Serialize_write i32_Serialize d b 0 =
      Inr (le_bytes 4 v @ drop (length (le_bytes 4 v)) b, length (le_bytes 4 v))"
    if "length (le_bytes 4 v) \<le> length b" for b
    using that d by (simp add: i32_Serialize_def i32_write_Inr length_le_bytes)
  show "Serialize_write i64_Serialize t b off =
      Inr (take off b @ le_bytes 8 u @ drop (off + length (le_bytes 8 u)) b,
           off + length (le_bytes 8 u))"
    if "off + length (le_bytes 8 u) \<le> length b" for b off
    using that t by (simp add: i64_Serialize_def i64_write_Inr length_le_bytes)
qed

subsection \<open>The default cursor of \<open>readAccount\<close>\<close>

text \<open>
  Claim C10. A call of \<open>readAccount\<close> without the cursor argument gives what the call
  with a fresh cursor at offset 0 gives, and decoding starts at the first byte of the
  buffer: the discriminant is read at offset 0, and the body, when the discriminant
  matches, at the offset where that read left the cursor.
\<close>

theorem readAccount_default_cursor:
  "readAccount dCons tCons buffer None = readAccount dCons tCons buffer (Some 0) \<and>
   readAccount dCons tCons buffer None =
     (case dCons_read dCons buffer 0 of
        Inl e \<Rightarrow> Inl e
      | Inr (discriminant, offset1) \<Rightarrow>
          if dCons_equals dCons discriminant (tCons_discriminant tCons)
          then (case tCons_read tCons buffer offset1 of
                  Inl e \<Rightarrow> Inl e
                | Inr (t, offset2) \<Rightarrow> Inr (Some t, offset2))
          else Inr (None, offset1))"
  by (simp add: readAccount_def)

subsection \<open>The reader and the writer on the classes of the repository\<close>

text \<open>
  Claim C6. For every record type and value, \<open>serializeInstruction\<close> returns a buffer
  whose length is the byte width of the discriminant plus that of the body, holding the
  discriminant's encoding at offset 0 and the body's encoding right after it. At the
  inputs below the encodings are 01 00 and 05, and the code returns the two bytes 01 05;
  with a \<open>u32\<close> discriminant and a \<open>u8\<close> body it allocates two bytes and the
  four-byte write throws.
\<close>

theorem serializeInstruction_wide_unsigned:
  "u16_write (U16 (Finite 1)) [0, 0] 0 = Inr ([1, 0], 1) \<and>
   u8_write (U8 (Finite 5)) [0] 0 = Inr ([5], 1) \<and>
   serializeInstruction u16_Serialize u8_Serialize (U16 (Finite 1)) (U8 (Finite 5)) = Inr [1, 5] \<and>
   serializeInstruction u32_Serialize u8_Serialize (U32 (Finite 7)) (U8 (Finite 255)) =
     Inl ERR_BUFFER_OUT_OF_BOUNDS"
  by code_simp

text \<open>
  Claim C7. When the leading bytes decode to a discriminant other than the expected
  one, \<open>readAccount\<close> returns the no-match result without an error, and the cursor has
  advanced by the byte width of the discriminant type. At the input below the result is
  no match, as claimed, and the cursor is at 1 after the two-byte \<open>u16\<close> discriminant
  257 was decoded.
\<close>

theorem readAccount_mismatch_u16:
  "u16_read [1, 1, 9, 9] 0 = Inr (U16 (Finite 257), 1) \<and>
   readAccount u16_DCons \<lparr>tCons_read = u8_read, tCons_discriminant = U16 (Finite 513)\<rparr>
     [1, 1, 9, 9] None = Inr (None, 1)"
  by code_simp

text \<open>
  Claim C8. On a buffer holding the expected discriminant's encoding followed by a
  body's encoding, \<open>readAccount\<close> decodes the body from the position just past the
  discriminant and returns the record that was encoded. At the input below the buffer
  is the \<open>u16\<close> 1 (01 00) followed by the \<open>u8\<close> 5 (05); the code reads the body
  at offset 1 and returns the \<open>u8\<close> 0. The two bytes that \<open>serializeInstruction\<close>
  returns for the same record are read as discriminant 1281 and give no match.
\<close>

theorem readAccount_match_u16:
  "readAccount u16_DCons \<lparr>tCons_read = u8_read, tCons_discriminant = U16 (Finite 1)\<rparr>
     [1, 0, 5] None = Inr (Some (U8 (Finite 0)), 2) \<and>
   readAccount u16_DCons \<lparr>tCons_read = u8_read, tCons_discriminant = U16 (Finite 1)\<rparr>
     [1, 5] None = Inr (None, 1)"
  by code_simp

text \<open>
  Claim C3. An instruction with discriminant \<open>u32\<close> 7 and body \<open>i64\<close> -1 serializes
  to the 12 bytes 07 00 00 00 FF FF FF FF FF FF FF FF; reading those 12 bytes against
  the expected discriminant \<open>u32\<close> 7 gives the \<open>i64\<close> -1, and against \<open>u32\<close> 8
  gives no match with the cursor at 4. The code returns 9 bytes, reads the body from
  offset 1 as -16777216, and reports no match with the cursor at 1.
\<close>

theorem u32_i64_scenario:
  "serializeInstruction u32_Serialize i64_Serialize (U32 (Finite 7)) (I64 (- 1)) =
     Inr [7, 255, 255, 255, 255, 255, 255, 255, 255] \<and>
   readAccount u32_DCons \<lparr>tCons_read = i64_read, tCons_discriminant = U32 (Finite 7)\<rparr>
     [7, 0, 0, 0, 255, 255, 255, 255, 255, 255, 255, 255] None =
     Inr (Some (I64 (- 16777216)), 9) \<and>
   readAccount u32_DCons \<lparr>tCons_read = i64_read, tCons_discriminant = U32 (Finite 8)\<rparr>
     [7, 0, 0, 0, 255, 255, 255, 255, 255, 255, 255, 255] None = Inr (None, 1)"
  by code_simp

end
